theory Spec2Isabelle
  imports Complex_Main "HOL-Library.Multiset" "HOL-Library.Sublist"
begin

section \<open>Code hierarchies and their depth\<close>

text \<open>
  The codebook types (\<^verbatim>\<open>types/codebook.ts\<close>): a hierarchy is a list of root code
  identifiers and an object mapping a parent identifier to the list of its children.
  \<^verbatim>\<open>refineCodebook\<close> takes that object from parsed JSON, so it is a plain object: the map
  below holds its own properties, and its prototype is \<^verbatim>\<open>Object.prototype\<close>.
\<close>

record CodeHierarchy =
  rootCodes :: "string list"
  relationships :: "string \<rightharpoonup> string list"

text \<open>
  A property access \<^verbatim>\<open>relationships[codeId]\<close> that finds no own property goes on to the
  prototype. The members of \<^verbatim>\<open>Object.prototype\<close> are functions, each with its \<^verbatim>\<open>length\<close>,
  and \<^verbatim>\<open>__proto__\<close>, which reads as the prototype object itself and has no \<^verbatim>\<open>length\<close>.
\<close>

datatype inherited = Function nat | Prototype

definition Object_prototype :: "string \<rightharpoonup> inherited" where
  "Object_prototype =
     [''constructor'' \<mapsto> Function 1, ''hasOwnProperty'' \<mapsto> Function 1,
      ''isPrototypeOf'' \<mapsto> Function 1, ''propertyIsEnumerable'' \<mapsto> Function 1,
      ''toLocaleString'' \<mapsto> Function 0, ''toString'' \<mapsto> Function 0,
      ''valueOf'' \<mapsto> Function 0, ''__defineGetter__'' \<mapsto> Function 2,
      ''__defineSetter__'' \<mapsto> Function 2, ''__lookupGetter__'' \<mapsto> Function 1,
      ''__lookupSetter__'' \<mapsto> Function 1, ''__proto__'' \<mapsto> Prototype]"

text \<open>
  \<^verbatim>\<open>hierarchy.relationships[codeId] || []\<close>: the own array (an array is truthy, also when
  empty), else the inherited member (truthy as well), else the empty array.
\<close>

datatype children = Array "string list" | Inherited inherited

definition children_of :: "(string \<rightharpoonup> string list) \<Rightarrow> string \<Rightarrow> children" where
  "children_of rel codeId =
     (case rel codeId of
        Some cs \<Rightarrow> Array cs
      | None \<Rightarrow> (case Object_prototype codeId of Some m \<Rightarrow> Inherited m | None \<Rightarrow> Array []))"

text \<open>
  \<^verbatim>\<open>Math.max(...childDepths)\<close> on depths, which are natural numbers. The source calls it
  on a non-empty list only, where it is the greatest element.
\<close>

definition Math_max :: "nat list \<Rightarrow> nat" where
  "Math_max xs = fold max xs 0"

text \<open>
  \<^verbatim>\<open>calculateHierarchyDepth\<close> (\<^verbatim>\<open>refineCodebook.ts\<close>) walks the object with a recursive
  helper \<^verbatim>\<open>getDepth\<close>. A call either returns a depth or throws: \<^verbatim>\<open>children.map\<close> is not a
  function when \<^verbatim>\<open>children\<close> is an inherited member, which is a \<^verbatim>\<open>TypeError\<close>. Nothing
  in the source bounds the recursion, so the model carries the number of nested calls
  that are still allowed: \<open>None\<close> means that the calls nested deeper than that number
  and nothing was returned or thrown. A computation that yields \<open>None\<close> for every such
  number nests without bound; an engine, whose call stack is finite, ends it with a
  \<^verbatim>\<open>RangeError\<close> when the stack is exhausted.
\<close>

datatype error = TypeError

text \<open>
  \<^verbatim>\<open>xs.map(f)\<close> with a callback that may throw or not return: the elements are visited in
  order, and the first that throws or does not return ends the traversal.
\<close>

fun array_map :: "('a \<Rightarrow> (error + 'b) option) \<Rightarrow> 'a list \<Rightarrow> (error + 'b list) option" where
  "array_map f [] = Some (Inr [])"
| "array_map f (x # xs) =
     (case f x of
        None \<Rightarrow> None
      | Some (Inl e) \<Rightarrow> Some (Inl e)
      | Some (Inr y) \<Rightarrow>
          (case array_map f xs of
             None \<Rightarrow> None
           | Some (Inl e) \<Rightarrow> Some (Inl e)
           | Some (Inr ys) \<Rightarrow> Some (Inr (y # ys))))"

fun getDepth :: "nat \<Rightarrow> (string \<rightharpoonup> string list) \<Rightarrow> string \<Rightarrow> nat \<Rightarrow> (error + nat) option" where
  "getDepth 0 rel codeId currentDepth = None"
| "getDepth (Suc fuel) rel codeId currentDepth =
     (case children_of rel codeId of
        Array children \<Rightarrow>
          if length children = 0 then Some (Inr currentDepth)
          else (case array_map (\<lambda>childId. getDepth fuel rel childId (currentDepth + 1)) children of
                  None \<Rightarrow> None
                | Some (Inl e) \<Rightarrow> Some (Inl e)
                | Some (Inr childDepths) \<Rightarrow> Some (Inr (Math_max childDepths)))
      | Inherited (Function n) \<Rightarrow>
          if n = 0 then Some (Inr currentDepth) else Some (Inl TypeError)
      | Inherited Prototype \<Rightarrow> Some (Inl TypeError))"

text \<open>The loop over \<^verbatim>\<open>hierarchy.rootCodes\<close>, with \<^verbatim>\<open>maxDepth\<close> as its state.\<close>

fun roots_loop :: "nat \<Rightarrow> (string \<rightharpoonup> string list) \<Rightarrow> string list \<Rightarrow> nat \<Rightarrow> (error + nat) option" where
  "roots_loop fuel rel [] maxDepth = Some (Inr maxDepth)"
| "roots_loop fuel rel (rootCode # rest) maxDepth =
     (case getDepth fuel rel rootCode 1 of
        None \<Rightarrow> None
      | Some (Inl e) \<Rightarrow> Some (Inl e)
      | Some (Inr depth) \<Rightarrow> roots_loop fuel rel rest (max maxDepth depth))"

definition calculateHierarchyDepth :: "nat \<Rightarrow> CodeHierarchy \<Rightarrow> (error + nat) option" where
  "calculateHierarchyDepth fuel hierarchy =
     roots_loop fuel (relationships hierarchy) (rootCodes hierarchy) 0"

text \<open>
  The reference definition of the depth, as the specification words it, over the
  parent-to-children map alone: a childless node contributes its current depth, a node
  with children the maximum over its children at depth + 1; the result is the maximum
  over the roots, and 0 without roots.
\<close>

definition map_children :: "(string \<rightharpoonup> string list) \<Rightarrow> string \<Rightarrow> string list" where
  "map_children rel codeId = (case rel codeId of None \<Rightarrow> [] | Some cs \<Rightarrow> cs)"

inductive getDepth_reference :: "(string \<rightharpoonup> string list) \<Rightarrow> string \<Rightarrow> nat \<Rightarrow> nat \<Rightarrow> bool"
  for rel :: "string \<rightharpoonup> string list" where
  childless: "map_children rel codeId = [] \<Longrightarrow> getDepth_reference rel codeId depth depth"
| with_children: "map_children rel codeId \<noteq> [] \<Longrightarrow>
     list_all2 (\<lambda>childId r. getDepth_reference rel childId (depth + 1) r) (map_children rel codeId) rs \<Longrightarrow>
     getDepth_reference rel codeId depth (Max (set rs))"

inductive hierarchyDepth_reference :: "CodeHierarchy \<Rightarrow> nat \<Rightarrow> bool" where
  no_roots: "rootCodes h = [] \<Longrightarrow> hierarchyDepth_reference h 0"
| some_roots: "rootCodes h \<noteq> [] \<Longrightarrow>
     list_all2 (\<lambda>rootCode r. getDepth_reference (relationships h) rootCode 1 r) (rootCodes h) rs \<Longrightarrow>
     hierarchyDepth_reference h (Max (set rs))"

text \<open>
  The hierarchy of the specification's example, one with a self-reference, and one whose
  root is named like a member of \<^verbatim>\<open>Object.prototype\<close>.
\<close>

definition example_hierarchy :: CodeHierarchy where
  "example_hierarchy = \<lparr> rootCodes = [''A''],
      relationships = [''A'' \<mapsto> [''B'', ''C''], ''B'' \<mapsto> [''D'']] \<rparr>"

definition self_referential_hierarchy :: CodeHierarchy where
  "self_referential_hierarchy = \<lparr> rootCodes = [''A''], relationships = [''A'' \<mapsto> [''A'']] \<rparr>"

definition constructor_hierarchy :: CodeHierarchy where
  "constructor_hierarchy = \<lparr> rootCodes = [''constructor''], relationships = Map.empty \<rparr>"

definition example_rank :: "string \<Rightarrow> nat" where
  "example_rank c = (if c = ''A'' then 2 else if c = ''B'' then 1 else 0)"

section \<open>Strings\<close>

text \<open>
  Strings are lists of 8-bit characters. \<^verbatim>\<open>toLowerCase\<close> maps the letters A to Z to
  a to z and leaves every other character as it is; \<^verbatim>\<open>s.includes(p)\<close> holds when
  \<open>p\<close> occurs in \<open>s\<close> as a contiguous run of characters.
\<close>

definition toLowerCase_char :: "char \<Rightarrow> char" where
  "toLowerCase_char c =
     (if 65 \<le> (of_char c :: nat) \<and> (of_char c :: nat) \<le> 90
      then (case c of Char b0 b1 b2 b3 b4 b5 b6 b7 \<Rightarrow> Char b0 b1 b2 b3 b4 True b6 b7)
      else c)"

definition toLowerCase :: "string \<Rightarrow> string" where
  "toLowerCase s = map toLowerCase_char s"

fun startsWith :: "string \<Rightarrow> string \<Rightarrow> bool" where
  "startsWith s [] = True"
| "startsWith [] (p # ps) = False"
| "startsWith (c # cs) (p # ps) = (c = p \<and> startsWith cs ps)"

fun str_includes :: "string \<Rightarrow> string \<Rightarrow> bool" where
  "str_includes [] p = (p = [])"
| "str_includes (c # cs) p = (startsWith (c # cs) p \<or> str_includes cs p)"

text \<open>
  The regular expression \<^verbatim>\<open>/\w+ing/\<close>, as \<^verbatim>\<open>test\<close> applies it: it matches when the
  string has one or more word characters (a letter, a digit or the underscore) directly
  followed by \<^verbatim>\<open>ing\<close>, anywhere. Such a run exists exactly when some \<^verbatim>\<open>ing\<close> has a
  word character right before it.
\<close>

definition is_word_char :: "char \<Rightarrow> bool" where
  "is_word_char c =
     (let n = (of_char c :: nat) in
      (48 \<le> n \<and> n \<le> 57) \<or> (65 \<le> n \<and> n \<le> 90) \<or> n = 95 \<or> (97 \<le> n \<and> n \<le> 122))"

fun gerund_regex_test :: "string \<Rightarrow> bool" where
  "gerund_regex_test [] = False"
| "gerund_regex_test (c # cs) = ((is_word_char c \<and> startsWith cs ''ing'') \<or> gerund_regex_test cs)"

text \<open>A natural number in decimal, as a template literal prints \<^verbatim>\<open>themes.length\<close>.\<close>

definition digit_char :: "nat \<Rightarrow> char" where
  "digit_char d = (if d = 0 then CHR ''0'' else if d = 1 then CHR ''1'' else if d = 2 then CHR ''2''
     else if d = 3 then CHR ''3'' else if d = 4 then CHR ''4'' else if d = 5 then CHR ''5''
     else if d = 6 then CHR ''6'' else if d = 7 then CHR ''7'' else if d = 8 then CHR ''8''
     else CHR ''9'')"

fun nat_to_string :: "nat \<Rightarrow> string" where
  "nat_to_string n = (if n < 10 then [digit_char n] else nat_to_string (n div 10) @ [digit_char (n mod 10)])"

section \<open>The theory engine\<close>

text \<open>
  \<^verbatim>\<open>theory-engine.ts\<close>. Its \<^verbatim>\<open>Theme\<close> comes from \<^verbatim>\<open>theme-engine.js\<close>; the fields are
  those of the theme that \<^verbatim>\<open>identifyCoreCategory\<close> builds. \<^verbatim>\<open>prevalence\<close> is a number,
  modelled as a real.
\<close>

record Theme =
  name :: string
  description :: string
  supportingCodes :: "string list"
  prevalence :: real
  examples :: "string list"

record ParadigmModel =
  phenomenon :: string
  causalConditions :: "string list"
  "context" :: "string list"
  strategies :: "string list"
  consequences :: "string list"
  interveningConditions :: "string list"

datatype RelationshipType = Causes | Influences | Triggers | Precedes | Enables | Constrains

datatype Strength = Strong | Moderate | Weak

text \<open>
  \<^verbatim>\<open>CategoryRelationship\<close>; its fields \<^verbatim>\<open>from\<close>, \<^verbatim>\<open>to\<close> and \<^verbatim>\<open>type\<close> carry the prefix
  \<open>rel_\<close> here.
\<close>

record CategoryRelationship =
  rel_from :: string
  rel_to :: string
  rel_type :: RelationshipType
  explanation :: string
  strength :: Strength

datatype Paradigm = Constructivist | Objectivist

record Metadata =
  researchQuestion :: string
  createdAt :: nat

record GroundedTheory =
  title :: string
  coreCategory :: string
  paradigm :: Paradigm
  paradigmModel :: ParadigmModel
  storyline :: string
  theoreticalPropositions :: "string list"
  categoryRelationships :: "CategoryRelationship list"
  metadata :: Metadata

subsection \<open>The core category\<close>

text \<open>
  \<^verbatim>\<open>[...themes].sort((a, b) => b.prevalence - a.prevalence)\<close>: a stable sort by
  descending prevalence.
\<close>

definition sort_by_prevalence :: "Theme list \<Rightarrow> Theme list" where
  "sort_by_prevalence themes = sort_key (\<lambda>t. - prevalence t) themes"

definition identifyCoreCategory :: "Theme list \<Rightarrow> Theme" where
  "identifyCoreCategory themes =
     (if length themes = 0
      then \<lparr> name = ''Unknown Process'', description = ''No themes identified'',
             supportingCodes = [], prevalence = 0, examples = [] \<rparr>
      else hd (sort_by_prevalence themes))"

subsection \<open>The paradigm model\<close>

definition containsGerunds :: "string list \<Rightarrow> bool" where
  "containsGerunds codes = list_ex gerund_regex_test codes"

text \<open>The body of the loop over the themes: one theme is pushed onto one list.\<close>

definition classify_theme :: "ParadigmModel \<Rightarrow> Theme \<Rightarrow> ParadigmModel" where
  "classify_theme model theme =
     (let themeName = toLowerCase (name theme) in
      if str_includes themeName ''trigger'' \<or> str_includes themeName ''cause'' \<or>
         str_includes themeName ''lead to'' \<or> str_includes themeName ''result from''
      then model\<lparr>causalConditions := causalConditions model @ [name theme]\<rparr>
      else if str_includes themeName ''context'' \<or> str_includes themeName ''environment'' \<or>
         str_includes themeName ''setting'' \<or> str_includes themeName ''background''
      then model\<lparr>context := context model @ [name theme]\<rparr>
      else if str_includes themeName ''strateg'' \<or> str_includes themeName ''action'' \<or>
         str_includes themeName ''approach'' \<or> str_includes themeName ''managing'' \<or>
         str_includes themeName ''coping'' \<or> containsGerunds (supportingCodes theme)
      then model\<lparr>strategies := strategies model @ [name theme]\<rparr>
      else if str_includes themeName ''outcome'' \<or> str_includes themeName ''result'' \<or>
         str_includes themeName ''consequence'' \<or> str_includes themeName ''impact'' \<or>
         str_includes themeName ''effect''
      then model\<lparr>consequences := consequences model @ [name theme]\<rparr>
      else if str_includes themeName ''factor'' \<or> str_includes themeName ''influence'' \<or>
         str_includes themeName ''constraint'' \<or> str_includes themeName ''resource''
      then model\<lparr>interveningConditions := interveningConditions model @ [name theme]\<rparr>
      else if prevalence theme > 0.3
      then model\<lparr>strategies := strategies model @ [name theme]\<rparr>
      else model\<lparr>context := context model @ [name theme]\<rparr>)"

definition empty_model :: ParadigmModel where
  "empty_model = \<lparr> phenomenon = [], causalConditions = [], context = [], strategies = [],
     consequences = [], interveningConditions = [] \<rparr>"

text \<open>The second argument, the codes, is never read.\<close>

definition buildParadigmModel :: "Theme list \<Rightarrow> 'code list \<Rightarrow> ParadigmModel" where
  "buildParadigmModel themes codes =
     (let model = fold (\<lambda>theme model. classify_theme model theme) themes empty_model in
      if length themes > 0 then model\<lparr>phenomenon := name (themes ! 0)\<rparr> else model)"

text \<open>
  The classification rules in the specification's words, written without the functions
  of the source. The name is lower-cased letter by letter; a name contains a keyword when
  the keyword is a contiguous part of it; a label matches the gerund pattern when one of
  its words, a maximal run of letters, ends in \<^verbatim>\<open>ing\<close> after a stem. The groups are tried
  in order, the first matching one decides the bucket, and the prevalence decides last.
\<close>

datatype Bucket = CausalConditions | Context | Strategies | Consequences | InterveningConditions

definition lower_cased :: "string \<Rightarrow> string" where
  "lower_cased s =
     map (\<lambda>c. case map_of (zip ''ABCDEFGHIJKLMNOPQRSTUVWXYZ'' ''abcdefghijklmnopqrstuvwxyz'') c of
                Some l \<Rightarrow> l | None \<Rightarrow> c) s"

definition contains_any :: "string \<Rightarrow> string list \<Rightarrow> bool" where
  "contains_any s keywords = (\<exists>k \<in> set keywords. sublist k s)"

definition is_letter :: "char \<Rightarrow> bool" where
  "is_letter c = (c \<in> set ''abcdefghijklmnopqrstuvwxyz'' \<or> c \<in> set ''ABCDEFGHIJKLMNOPQRSTUVWXYZ'')"

fun split_words :: "string \<Rightarrow> string \<Rightarrow> string list" where
  "split_words w [] = (if w = [] then [] else [w])"
| "split_words w (c # cs) =
     (if is_letter c then split_words (w @ [c]) cs
      else (if w = [] then [] else [w]) @ split_words [] cs)"

definition words_of :: "string \<Rightarrow> string list" where
  "words_of s = split_words [] s"

definition ends_in_ing :: "string \<Rightarrow> bool" where
  "ends_in_ing w = (3 < length w \<and> drop (length w - 3) w = ''ing'')"

definition matches_gerund_pattern :: "string \<Rightarrow> bool" where
  "matches_gerund_pattern label = (\<exists>w \<in> set (words_of label). ends_in_ing w)"

definition rule_bucket :: "Theme \<Rightarrow> Bucket" where
  "rule_bucket theme =
     (let n = lower_cased (name theme) in
      if contains_any n [''trigger'', ''cause'', ''lead to'', ''result from''] then CausalConditions
      else if contains_any n [''context'', ''environment'', ''setting'', ''background''] then Context
      else if contains_any n [''strateg'', ''action'', ''approach'', ''managing'', ''coping'']
              \<or> (\<exists>label \<in> set (supportingCodes theme). matches_gerund_pattern label)
      then Strategies
      else if contains_any n [''outcome'', ''result'', ''consequence'', ''impact'', ''effect'']
      then Consequences
      else if contains_any n [''factor'', ''influence'', ''constraint'', ''resource'']
      then InterveningConditions
      else if prevalence theme > 0.3 then Strategies
      else Context)"

text \<open>Assigning a theme name to a bucket of the model.\<close>

fun assign :: "Bucket \<Rightarrow> string \<Rightarrow> ParadigmModel \<Rightarrow> ParadigmModel" where
  "assign CausalConditions n model = model\<lparr>causalConditions := causalConditions model @ [n]\<rparr>"
| "assign Context n model = model\<lparr>context := context model @ [n]\<rparr>"
| "assign Strategies n model = model\<lparr>strategies := strategies model @ [n]\<rparr>"
| "assign Consequences n model = model\<lparr>consequences := consequences model @ [n]\<rparr>"
| "assign InterveningConditions n model =
     model\<lparr>interveningConditions := interveningConditions model @ [n]\<rparr>"

text \<open>The names on the five lists of a model, each as often as it is listed.\<close>

definition listed_names :: "ParadigmModel \<Rightarrow> string multiset" where
  "listed_names model =
     mset (causalConditions model) + mset (context model) + mset (strategies model)
       + mset (consequences model) + mset (interveningConditions model)"

definition names_in :: "Bucket \<Rightarrow> Theme list \<Rightarrow> string list" where
  "names_in b themes = map name (filter (\<lambda>t. rule_bucket t = b) themes)"

text \<open>Themes used as examples.\<close>

definition coping_theme :: Theme where
  "coping_theme = \<lparr> name = ''Coping with uncertainty'', description = [],
     supportingCodes = [], prevalence = 0, examples = [] \<rparr>"

definition minor_theme :: Theme where
  "minor_theme = \<lparr> name = ''Minor theme'', description = [],
     supportingCodes = [''c1''], prevalence = 0.1, examples = [] \<rparr>"

definition major_theme :: Theme where
  "major_theme = \<lparr> name = ''Major theme'', description = [],
     supportingCodes = [''c1'', ''c2''], prevalence = 0.9, examples = [] \<rparr>"

definition results_theme :: Theme where
  "results_theme = \<lparr> name = ''Results'', description = [],
     supportingCodes = [''findings''], prevalence = 0.1, examples = [] \<rparr>"

definition repeated_code_theme :: Theme where
  "repeated_code_theme = \<lparr> name = ''Repeated'', description = [],
     supportingCodes = [''c1'', ''c1'', ''c1''], prevalence = 0.5, examples = [] \<rparr>"

subsection \<open>Relationships between categories\<close>

definition sharedCodes :: "Theme \<Rightarrow> Theme \<Rightarrow> string list" where
  "sharedCodes theme1 theme2 =
     filter (\<lambda>c. c \<in> set (supportingCodes theme2)) (supportingCodes theme1)"

text \<open>The result of \<^verbatim>\<open>inferRelationship\<close>: type, explanation and strength, or \<^verbatim>\<open>null\<close>.\<close>

definition inferRelationship :: "Theme \<Rightarrow> Theme \<Rightarrow> (RelationshipType \<times> string \<times> Strength) option" where
  "inferRelationship theme1 theme2 =
     (let name1 = toLowerCase (name theme1);
          name2 = toLowerCase (name theme2);
          shared = sharedCodes theme1 theme2
      in if length shared = 0 then None
         else let strength = (if length shared > 2 then Strong
                              else if length shared > 1 then Moderate else Weak)
         in if str_includes name1 ''challeng'' \<and> str_includes name2 ''strateg''
            then Some (Triggers, ''Challenges trigger the use of strategies'', strength)
            else if str_includes name1 ''strateg'' \<and> str_includes name2 ''outcome''
            then Some (Causes, ''Strategies lead to outcomes'', strength)
            else if str_includes name1 ''context'' \<or> str_includes name1 ''factor''
            then Some (Influences, ''Contextual factors influence other processes'', strength)
            else Some (Influences,
                   [CHR 0x22] @ name theme1 @ [CHR 0x22] @ '' influences '' @ [CHR 0x22] @ name theme2
                     @ [CHR 0x22] @ '' through shared underlying processes'',
                   strength))"

text \<open>The two nested loops over the indices \<open>i\<close> and \<open>j\<close> of the themes.\<close>

definition relationships_inner :: "Theme list \<Rightarrow> nat \<Rightarrow> nat \<Rightarrow> CategoryRelationship list \<Rightarrow> CategoryRelationship list" where
  "relationships_inner themes i j rels =
     (if i = j then rels
      else let theme1 = themes ! i; theme2 = themes ! j in
        (case inferRelationship theme1 theme2 of
           None \<Rightarrow> rels
         | Some (ty, expl, str) \<Rightarrow>
             rels @ [\<lparr> rel_from = name theme1, rel_to = name theme2, rel_type = ty,
                       explanation = expl, strength = str \<rparr>]))"

definition mapCategoryRelationships :: "Theme list \<Rightarrow> CategoryRelationship list" where
  "mapCategoryRelationships themes =
     fold (\<lambda>i rels. fold (\<lambda>j rels. relationships_inner themes i j rels) [0..<length themes] rels)
       [0..<length themes] []"

subsection \<open>Storyline and propositions\<close>

text \<open>\<^verbatim>\<open>items.join(sep)\<close>\<close>

fun join :: "string \<Rightarrow> string list \<Rightarrow> string" where
  "join sep [] = []"
| "join sep [x] = x"
| "join sep (x # y # ys) = x @ sep @ join sep (y # ys)"

definition formatList :: "string list \<Rightarrow> string" where
  "formatList items =
     (if length items = 0 then []
      else if length items = 1 then toLowerCase (items ! 0)
      else if length items = 2 then toLowerCase (items ! 0) @ '' and '' @ toLowerCase (items ! 1)
      else let lastItem = items ! (length items - 1);
               otherItems = take (length items - 1) items
           in join '', '' (map toLowerCase otherItems) @ '', and '' @ toLowerCase lastItem)"

definition generateStoryline :: "Theme \<Rightarrow> ParadigmModel \<Rightarrow> Theme list \<Rightarrow> string" where
  "generateStoryline core model themes =
     (let s0 = ''This grounded theory explains the process of '' @ toLowerCase (name core) @ ''. '';
          s1 = (if length (causalConditions model) > 0
                then s0 @ ''This process is initiated by '' @ formatList (causalConditions model) @ ''. ''
                else s0);
          s2 = (if length (context model) > 0
                then s1 @ ''It occurs within the context of '' @ formatList (context model) @ ''. ''
                else s1);
          s3 = (if length (strategies model) > 0
                then s2 @ ''Participants engage in '' @ formatList (strategies model)
                       @ '' as responses to the phenomenon. ''
                else s2);
          s4 = (if length (interveningConditions model) > 0
                then s3 @ ''These responses are shaped by '' @ formatList (interveningConditions model) @ ''. ''
                else s3);
          s5 = (if length (consequences model) > 0
                then s4 @ ''This ultimately results in '' @ formatList (consequences model) @ ''. ''
                else s4);
          s6 = s5 @ [CHR 0x0A, CHR 0x0A] @ ''The data reveals '' @ nat_to_string (length themes)
                 @ '' interconnected themes that together explain how participants navigate ''
                 @ toLowerCase (name core) @ ''. ''
      in s6 @ ''This theory demonstrates that the process is not linear but involves continuous interaction between individual actions, contextual factors, and evolving outcomes.'')"

definition proposition_of :: "CategoryRelationship \<Rightarrow> string" where
  "proposition_of rel =
     (case rel_type rel of
        Causes \<Rightarrow> rel_from rel @ '' directly causes '' @ rel_to rel
      | Triggers \<Rightarrow> rel_from rel @ '' triggers the initiation of '' @ rel_to rel
      | Influences \<Rightarrow> rel_from rel @ '' significantly influences '' @ rel_to rel
      | Enables \<Rightarrow> rel_from rel @ '' enables or facilitates '' @ rel_to rel
      | Constrains \<Rightarrow> rel_from rel @ '' constrains or limits '' @ rel_to rel
      | Precedes \<Rightarrow> rel_from rel @ '' temporally precedes '' @ rel_to rel)"

definition generatePropositions :: "Theme list \<Rightarrow> CategoryRelationship list \<Rightarrow> string list" where
  "generatePropositions themes rels =
     (let strongRelationships = filter (\<lambda>r. strength r = Strong) rels;
          p1 = filter (\<lambda>p. p \<noteq> []) (map proposition_of (take 5 strongRelationships));
          prevalentThemes = filter (\<lambda>t. prevalence t > 0.5) themes;
          p2 = p1 @ map (\<lambda>theme. name theme
                 @ '' is a central process that appears across most participant experiences'')
                 (take 3 prevalentThemes)
      in if length p2 = 0
         then [''The identified themes represent interconnected processes in participants' experiences'',
               ''Context and individual factors mediate how these processes manifest'',
               ''The overall process is dynamic and evolves over time'']
         else p2)"

subsection \<open>Building the theory\<close>

text \<open>
  \<^verbatim>\<open>buildGroundedTheory\<close>. The paradigm defaults to constructivist; the time of creation,
  which the source reads from the clock, is an argument.
\<close>

definition buildGroundedTheory ::
  "'code list \<Rightarrow> Theme list \<Rightarrow> string \<Rightarrow> Paradigm option \<Rightarrow> nat \<Rightarrow> GroundedTheory" where
  "buildGroundedTheory codes themes rq paradigm_opt now =
     (let paradigm = (case paradigm_opt of None \<Rightarrow> Constructivist | Some p \<Rightarrow> p);
          core = identifyCoreCategory themes;
          model = buildParadigmModel themes codes;
          rels = mapCategoryRelationships themes;
          story = generateStoryline core model themes;
          propositions = generatePropositions themes rels
      in \<lparr> title = ''Theory of '' @ name core,
           coreCategory = name core,
           paradigm = paradigm,
           paradigmModel = model,
           storyline = story,
           theoreticalPropositions = propositions,
           categoryRelationships = rels,
           metadata = \<lparr> researchQuestion = rq, createdAt = now \<rparr> \<rparr>)"

section \<open>Numbers\<close>

text \<open>
  The validators compute with JavaScript numbers: counts, their quotients, sums, minima
  and maxima. A number is modelled as an exact real, an infinity or NaN, so that a
  division by zero is what it is in the source (0/0 is NaN, a positive count over 0 is
  infinite) and a comparison with NaN is false. Rounding and the sign of zero are not
  modelled; every zero divisor here is a count, a positive zero.
\<close>

datatype jsnum = Fin real | PosInf | NegInf | NaN

definition num :: "nat \<Rightarrow> jsnum" where
  "num n = Fin (real n)"

definition inf_of_sign :: "real \<Rightarrow> jsnum" where
  "inf_of_sign s = (if s > 0 then PosInf else if s < 0 then NegInf else NaN)"

fun sign_of :: "jsnum \<Rightarrow> real" where
  "sign_of (Fin a) = sgn a"
| "sign_of PosInf = 1"
| "sign_of NegInf = - 1"
| "sign_of NaN = 0"

fun js_add :: "jsnum \<Rightarrow> jsnum \<Rightarrow> jsnum" where
  "js_add NaN b = NaN"
| "js_add a NaN = NaN"
| "js_add (Fin a) (Fin b) = Fin (a + b)"
| "js_add PosInf NegInf = NaN"
| "js_add NegInf PosInf = NaN"
| "js_add PosInf b = PosInf"
| "js_add NegInf b = NegInf"
| "js_add (Fin a) b = b"

fun js_neg :: "jsnum \<Rightarrow> jsnum" where
  "js_neg (Fin a) = Fin (- a)"
| "js_neg PosInf = NegInf"
| "js_neg NegInf = PosInf"
| "js_neg NaN = NaN"

definition js_sub :: "jsnum \<Rightarrow> jsnum \<Rightarrow> jsnum" where
  "js_sub a b = js_add a (js_neg b)"

fun js_mul :: "jsnum \<Rightarrow> jsnum \<Rightarrow> jsnum" where
  "js_mul NaN b = NaN"
| "js_mul a NaN = NaN"
| "js_mul (Fin a) (Fin b) = Fin (a * b)"
| "js_mul a b = inf_of_sign (sign_of a * sign_of b)"

fun js_divide :: "jsnum \<Rightarrow> jsnum \<Rightarrow> jsnum" where
  "js_divide NaN b = NaN"
| "js_divide a NaN = NaN"
| "js_divide (Fin a) (Fin b) = (if b \<noteq> 0 then Fin (a / b) else inf_of_sign a)"
| "js_divide (Fin a) b = Fin 0"
| "js_divide a (Fin b) = inf_of_sign (sign_of a * (if b < 0 then - 1 else 1))"
| "js_divide a b = NaN"

fun js_ge :: "jsnum \<Rightarrow> jsnum \<Rightarrow> bool" where
  "js_ge NaN b = False"
| "js_ge a NaN = False"
| "js_ge (Fin a) (Fin b) = (a \<ge> b)"
| "js_ge PosInf b = True"
| "js_ge a NegInf = True"
| "js_ge a b = False"

definition js_lt :: "jsnum \<Rightarrow> jsnum \<Rightarrow> bool" where
  "js_lt a b = (a \<noteq> NaN \<and> b \<noteq> NaN \<and> \<not> js_ge a b)"

text \<open>\<^verbatim>\<open>Math.min\<close>, \<^verbatim>\<open>Math.max\<close> and \<^verbatim>\<open>Math.floor\<close>; a NaN argument gives NaN.\<close>

definition js_min :: "jsnum \<Rightarrow> jsnum \<Rightarrow> jsnum" where
  "js_min a b = (if a = NaN \<or> b = NaN then NaN else if js_ge a b then b else a)"

definition js_max :: "jsnum \<Rightarrow> jsnum \<Rightarrow> jsnum" where
  "js_max a b = (if a = NaN \<or> b = NaN then NaN else if js_ge a b then a else b)"

fun js_floor :: "jsnum \<Rightarrow> jsnum" where
  "js_floor (Fin a) = Fin (of_int \<lfloor>a\<rfloor>)"
| "js_floor a = a"

section \<open>Quality validation\<close>

text \<open>
  \<^verbatim>\<open>qualityValidation.ts\<close> and the types it reads (\<^verbatim>\<open>types/codebook.ts\<close>,
  \<^verbatim>\<open>types/themes.ts\<close>, \<^verbatim>\<open>types/theory.ts\<close>). These types share names with those of the
  theory engine; the theme and the theory of this part carry the suffix \<open>T\<close>, and fields
  whose names are taken carry a prefix. Dates and the fields no validator reads
  (metadata, subthemes, merged codes) are left out. Counts are natural numbers.
\<close>

record Code =
  code_id :: string
  label :: string
  code_definition :: string
  whenToUse :: string
  whenNotToUse :: string
  code_examples :: "string list"
  frequency :: nat
  childCodes :: "string list option"
  parentCode :: "string option"

record CodebookMetrics =
  totalCodes :: nat
  hierarchyDepth :: nat
  averageCodeFrequency :: jsnum
  redundancyScore :: jsnum

record Codebook =
  version :: string
  projectName :: string
  methodology :: "string option"
  codes :: "Code list"
  codeHierarchy :: CodeHierarchy
  refinementNotes :: string
  qualityMetrics :: CodebookMetrics

record Quote =
  quote_id :: string
  quote_text :: string
  quote_source :: string
  participant :: "string option"
  quote_context :: string
  codeLabels :: "string list"

record Prevalence =
  participants :: nat
  totalParticipants :: nat
  dataPoints :: nat

record ThemeT =
  theme_id :: string
  theme_name :: string
  centralConcept :: string
  theme_definition :: string
  relatedCodes :: "string list"
  supportingQuotes :: "Quote list"
  theme_prevalence :: Prevalence
  significance :: string

record CategoryRelationshipT = CategoryRelationship +
  evidence :: "string list"

record TheoreticalIntegration =
  linkedTheories :: "string list"
  contribution :: string
  novelty :: string
  practicalImplications :: "string list"
  futureResearch :: "string list"

record SaturationEvidence =
  categoriesSaturated :: bool
  negativeCasesExamined :: nat
  dataSupport :: string
  saturatedCategories :: "string list"
  unsaturatedCategories :: "string list"

datatype ParadigmT = ConstructivistT | ObjectivistT | CriticalT

record GroundedTheoryT =
  gt_title :: string
  gt_coreCategory :: string
  gt_paradigm :: ParadigmT
  gt_paradigmModel :: ParadigmModel
  gt_storyline :: string
  gt_theoreticalPropositions :: "string list"
  gt_categoryRelationships :: "CategoryRelationshipT list"
  theoreticalIntegration :: TheoreticalIntegration
  saturationEvidence :: SaturationEvidence

text \<open>
  \<^verbatim>\<open>criteriaScores\<close> is an object filled key by key; it is the list of its entries in
  the order of insertion, which is the order \<^verbatim>\<open>Object.values\<close> reads them in.
\<close>

record QualityAssessment =
  overallQuality :: jsnum
  criteriaScores :: "(string \<times> jsnum) list"
  strengths :: "string list"
  weaknesses :: "string list"
  recommendations :: "string list"
  passesQualityThreshold :: bool

text \<open>
  \<^verbatim>\<open>Object.values(scores).reduce((a, b) => a + b, 0) / Object.keys(scores).length\<close>
\<close>

definition mean_score :: "(string \<times> jsnum) list \<Rightarrow> jsnum" where
  "mean_score scores =
     js_divide (fold (\<lambda>b a. js_add a b) (map snd scores) (Fin 0)) (num (length scores))"

text \<open>
  The three lists of remarks are filled by pushes, block after block; a block's pushes
  are a triple of lists (strengths, weaknesses, recommendations), and the blocks are
  appended in the order of the source.
\<close>

type_synonym remarks = "string list \<times> string list \<times> string list"

definition no_remarks :: remarks where
  "no_remarks = ([], [], [])"

fun add_remarks :: "remarks \<Rightarrow> remarks \<Rightarrow> remarks" where
  "add_remarks (s1, w1, r1) (s2, w2, r2) = (s1 @ s2, w1 @ w2, r1 @ r2)"

subsection \<open>The codebook validator\<close>

definition codebook_scores :: "Codebook \<Rightarrow> (string \<times> jsnum) list" where
  "codebook_scores codebook =
     (let cs = codes codebook;
          codesWithDefinitions = filter (\<lambda>c. code_definition c \<noteq> [] \<and> length (code_definition c) > 10) cs;
          clarity = js_divide (num (length codesWithDefinitions)) (num (length cs));
          uniqueLabels = remdups (map (\<lambda>c. toLowerCase (label c)) cs);
          distinctiveness = js_divide (num (length uniqueLabels)) (num (length cs));
          codeCount = length cs;
          completeness = (if codeCount < 5 then Fin 0.3
                          else if codeCount < 10 then Fin 0.6
                          else if codeCount \<le> 50 then Fin 1.0
                          else if codeCount \<le> 100 then Fin 0.8
                          else Fin 0.5);
          depth = hierarchyDepth (qualityMetrics codebook);
          hierarchy = (if depth = 0 then Fin 0.5 else if depth \<le> 3 then Fin 1.0 else Fin 0.6);
          codesWithExamples = filter (\<lambda>c. length (code_examples c) > 0) cs;
          examples_score = js_divide (num (length codesWithExamples)) (num (length cs))
      in [(''clarity'', clarity), (''distinctiveness'', distinctiveness),
          (''completeness'', completeness), (''hierarchy'', hierarchy),
          (''examples'', examples_score)])"

definition score :: "(string \<times> jsnum) list \<Rightarrow> string \<Rightarrow> jsnum" where
  "score scores key = (case map_of scores key of Some v \<Rightarrow> v | None \<Rightarrow> NaN)"

definition codebook_remarks :: "Codebook \<Rightarrow> (string \<times> jsnum) list \<Rightarrow> remarks" where
  "codebook_remarks codebook scores =
     (let codeCount = length (codes codebook);
          b1 = (if js_ge (score scores ''clarity'') (Fin 0.9)
                then ([''Codes are clearly defined''], [], [])
                else if js_lt (score scores ''clarity'') (Fin 0.7)
                then ([], [''Some codes lack clear definitions''],
                      [''Add clear definitions for all codes, including when to use and when not to use''])
                else no_remarks);
          b2 = (if js_ge (score scores ''distinctiveness'') (Fin 0.95)
                then ([''Codes are distinctive and non-overlapping''], [], [])
                else if js_lt (score scores ''distinctiveness'') (Fin 0.9)
                then ([], [''Some code labels may be duplicates or very similar''],
                      [''Review codes for duplicates and merge similar codes''])
                else no_remarks);
          b3 = (if js_ge (score scores ''completeness'') (Fin 0.9)
                then ([''Appropriate number of codes for analysis''], [], [])
                else if js_lt (score scores ''completeness'') (Fin 0.7)
                then (if codeCount < 10
                      then ([], [], [''Consider if you need more codes to capture data richness''])
                      else ([], [], [''Consider consolidating codes - codebook may be too large'']))
                else no_remarks);
          b4 = (if js_ge (score scores ''examples'') (Fin 0.8)
                then ([''Codes well-supported with examples''], [], [])
                else ([], [''Many codes lack supporting examples''],
                      [''Add data examples for each code to ground them in evidence'']))
      in add_remarks (add_remarks (add_remarks b1 b2) b3) b4)"

definition validateCodebook :: "Codebook \<Rightarrow> string option \<Rightarrow> QualityAssessment" where
  "validateCodebook codebook methodology_opt =
     (let scores = codebook_scores codebook;
          overall = mean_score scores;
          (s, w, r) = codebook_remarks codebook scores
      in \<lparr> overallQuality = overall, criteriaScores = scores, strengths = s, weaknesses = w,
           recommendations = r, passesQualityThreshold = js_ge overall (Fin 0.7) \<rparr>)"

subsection \<open>The theme validator\<close>

text \<open>
  \<^verbatim>\<open>calculateThemeOverlap\<close>: the loops over \<open>i\<close> and \<open>j > i\<close>, with \<^verbatim>\<open>totalOverlap\<close> and
  \<^verbatim>\<open>comparisons\<close> as their state. The codes of a theme are compared as sets.
\<close>

definition overlap_of :: "ThemeT \<Rightarrow> ThemeT \<Rightarrow> nat" where
  "overlap_of t1 t2 =
     length (filter (\<lambda>c. c \<in> set (relatedCodes t2)) (remdups (relatedCodes t1)))"

definition calculateThemeOverlap :: "ThemeT list \<Rightarrow> jsnum" where
  "calculateThemeOverlap themes =
     (if length themes < 2 then Fin 0
      else let (totalOverlap, comparisons) =
                 fold (\<lambda>i st. fold (\<lambda>j (overlap, n). (overlap + overlap_of (themes ! i) (themes ! j), n + 1))
                                 [i + 1 ..< length themes] st)
                   [0 ..< length themes] (0, 0)
           in if comparisons > 0 then js_divide (num totalOverlap) (num comparisons) else Fin 0)"

definition theme_scores :: "ThemeT list \<Rightarrow> jsnum \<Rightarrow> (string \<times> jsnum) list" where
  "theme_scores themes totalDataPoints =
     (let themesWithConcepts = filter (\<lambda>t. centralConcept t \<noteq> [] \<and> length (centralConcept t) > 10) themes;
          coherence = js_divide (num (length themesWithConcepts)) (num (length themes));
          avgSharedCodes = calculateThemeOverlap themes;
          distinctiveness = js_max (Fin 0) (js_sub (Fin 1) (js_divide avgSharedCodes (Fin 3)));
          avgQuotesPerTheme =
            js_divide (fold (\<lambda>t sum. js_add sum (num (length (supportingQuotes t)))) themes (Fin 0))
              (num (length themes));
          dataSupport_score = js_min (Fin 1) (js_divide avgQuotesPerTheme (Fin 5));
          themesWithSignificance = filter (\<lambda>t. significance t \<noteq> [] \<and> length (significance t) > 10) themes;
          relevance = js_divide (num (length themesWithSignificance)) (num (length themes));
          avgPrevalence =
            js_divide
              (fold (\<lambda>t sum. if totalParticipants (theme_prevalence t) > 0
                               then js_add sum (js_divide (num (participants (theme_prevalence t)))
                                                          (num (totalParticipants (theme_prevalence t))))
                               else sum) themes (Fin 0))
              (num (length themes));
          totalDataPointsCovered =
            fold (\<lambda>t sum. js_add sum (num (dataPoints (theme_prevalence t)))) themes (Fin 0);
          coverage = js_min (Fin 1) (js_divide totalDataPointsCovered totalDataPoints)
      in [(''coherence'', coherence), (''distinctiveness'', distinctiveness),
          (''dataSupport'', dataSupport_score), (''relevance'', relevance),
          (''prevalence'', avgPrevalence), (''coverage'', coverage)])"

definition theme_remarks :: "ThemeT list \<Rightarrow> (string \<times> jsnum) list \<Rightarrow> remarks" where
  "theme_remarks themes scores =
     (let b1 = (if js_ge (score scores ''coherence'') (Fin 0.9)
                then ([''Themes have clear central organizing concepts''], [], [])
                else ([], [''Some themes lack clear central concepts''],
                      [''Define the central organizing concept for each theme'']));
          b2 = (if js_ge (score scores ''distinctiveness'') (Fin 0.8)
                then ([''Themes are clearly distinct from each other''], [], [])
                else ([], [''Themes may have too much overlap''],
                      [''Review themes for overlap and ensure each captures a distinct pattern'']));
          b3 = (if js_ge (score scores ''dataSupport'') (Fin 0.8)
                then ([''Themes well-supported with data extracts''], [], [])
                else ([], [''Themes need more supporting quotes''],
                      [''Add more supporting quotes for each theme (aim for 5+ per theme)'']));
          b4 = (if js_ge (score scores ''prevalence'') (Fin 0.5)
                then ([''Themes appear across multiple participants''], [], [])
                else ([], [''Some themes may be too narrow, appearing in few participants''],
                      [''Consider if narrow themes should be combined or presented as subthemes'']));
          b5 = (if length themes < 3
                then ([], [''Very few themes - may be missing patterns''],
                      [''Consider if data has been analyzed in sufficient depth''])
                else if length themes > 8
                then ([], [''Many themes - may lack coherence''],
                      [''Consider grouping themes or creating theme hierarchies''])
                else ([''Appropriate number of themes ('' @ nat_to_string (length themes) @ '')''], [], []))
      in add_remarks (add_remarks (add_remarks (add_remarks b1 b2) b3) b4) b5)"

definition validateThemes :: "ThemeT list \<Rightarrow> jsnum \<Rightarrow> QualityAssessment" where
  "validateThemes themes totalDataPoints =
     (let scores = theme_scores themes totalDataPoints;
          overall = mean_score scores;
          (s, w, r) = theme_remarks themes scores
      in \<lparr> overallQuality = overall, criteriaScores = scores, strengths = s, weaknesses = w,
           recommendations = r, passesQualityThreshold = js_ge overall (Fin 0.7) \<rparr>)"

subsection \<open>The theory validator\<close>

definition credibility_score :: "GroundedTheoryT \<Rightarrow> jsnum" where
  "credibility_score theory =
     (let c0 = Fin 0;
          c1 = (if length (causalConditions (gt_paradigmModel theory)) > 0 then js_add c0 (Fin 0.2) else c0);
          c2 = (if length (strategies (gt_paradigmModel theory)) > 0 then js_add c1 (Fin 0.2) else c1);
          c3 = (if length (gt_categoryRelationships theory) \<ge> 3 then js_add c2 (Fin 0.3) else c2)
      in if categoriesSaturated (saturationEvidence theory) then js_add c3 (Fin 0.3) else c3)"

definition originality_score :: "GroundedTheoryT \<Rightarrow> jsnum" where
  "originality_score theory =
     (let o0 = Fin 0;
          o1 = (if novelty (theoreticalIntegration theory) \<noteq> []
                   \<and> length (novelty (theoreticalIntegration theory)) > 20
                then js_add o0 (Fin 0.5) else o0)
      in if length (gt_theoreticalPropositions theory) \<ge> 3 then js_add o1 (Fin 0.5) else o1)"

definition resonance_score :: "GroundedTheoryT \<Rightarrow> jsnum" where
  "resonance_score theory =
     (let r0 = Fin 0;
          r1 = (if gt_storyline theory \<noteq> [] \<and> length (gt_storyline theory) > 100
                then js_add r0 (Fin 0.3) else r0);
          r2 = (if length (context (gt_paradigmModel theory)) > 0 then js_add r1 (Fin 0.2) else r1);
          r3 = (if length (interveningConditions (gt_paradigmModel theory)) > 0
                then js_add r2 (Fin 0.2) else r2)
      in if list_ex (\<lambda>r. strength r = Strong) (gt_categoryRelationships theory)
         then js_add r3 (Fin 0.3) else r3)"

definition usefulness_score :: "GroundedTheoryT \<Rightarrow> jsnum" where
  "usefulness_score theory =
     (let u0 = Fin 0;
          u1 = (if contribution (theoreticalIntegration theory) \<noteq> []
                   \<and> length (contribution (theoreticalIntegration theory)) > 20
                then js_add u0 (Fin 0.4) else u0);
          u2 = (if length (practicalImplications (theoreticalIntegration theory)) > 0
                then js_add u1 (Fin 0.3) else u1)
      in if length (futureResearch (theoreticalIntegration theory)) > 0
         then js_add u2 (Fin 0.3) else u2)"

definition theory_scores :: "GroundedTheoryT \<Rightarrow> (string \<times> jsnum) list" where
  "theory_scores theory =
     [(''credibility'', credibility_score theory), (''originality'', originality_score theory),
      (''resonance'', resonance_score theory), (''usefulness'', usefulness_score theory)]"

definition theory_remarks :: "GroundedTheoryT \<Rightarrow> (string \<times> jsnum) list \<Rightarrow> remarks" where
  "theory_remarks theory scores =
     (let b1 = (if js_ge (score scores ''credibility'') (Fin 0.8)
                then ([''Strong evidence of systematic analysis''], [], [])
                else ([], [''Theory needs more systematic development''],
                      [''Ensure all paradigm model elements are developed and relationships are specified'']));
          b2 = (if js_ge (score scores ''originality'') (Fin 0.7)
                then ([''Theory offers fresh insights''], [], [])
                else ([], [''Theory may lack originality''],
                      [''Develop more theoretical propositions and clarify what is novel about this theory'']));
          b3 = (if js_ge (score scores ''resonance'') (Fin 0.7)
                then ([''Theory captures richness of experience''], [], [])
                else ([], [''Theory may not fully capture participant experiences''],
                      [''Develop more contextual and conditional factors; strengthen the storyline'']));
          b4 = (if js_ge (score scores ''usefulness'') (Fin 0.7)
                then ([''Theory has clear practical value''], [], [])
                else ([], [''Practical implications need development''],
                      [''Articulate practical implications and future research directions'']));
          b5 = (if \<not> categoriesSaturated (saturationEvidence theory)
                then ([], [''Theoretical saturation not achieved''],
                      [''Continue analysis or acknowledge saturation limitations''])
                else no_remarks)
      in add_remarks (add_remarks (add_remarks (add_remarks b1 b2) b3) b4) b5)"

definition validateGroundedTheory :: "GroundedTheoryT \<Rightarrow> QualityAssessment" where
  "validateGroundedTheory theory =
     (let scores = theory_scores theory;
          overall = mean_score scores;
          (s, w, r) = theory_remarks theory scores
      in \<lparr> overallQuality = overall, criteriaScores = scores, strengths = s, weaknesses = w,
           recommendations = r, passesQualityThreshold = js_ge overall (Fin 0.65) \<rparr>)"

section \<open>Saturation of the extracted themes\<close>

text \<open>
  \<^verbatim>\<open>extractThemes.ts\<close> computes the saturation flag from the themes it has built and from
  \<^verbatim>\<open>rawData.length\<close>, which it has also stored as \<^verbatim>\<open>totalParticipants\<close> in the prevalence
  of every theme.
\<close>

definition saturation :: "ThemeT list \<Rightarrow> nat \<Rightarrow> bool" where
  "saturation themes rawData_length =
     (length themes \<ge> 3
      \<and> list_all (\<lambda>t. length (supportingQuotes t) \<ge> 3) themes
      \<and> list_all (\<lambda>t. js_ge (num (participants (theme_prevalence t)))
                          (js_min (Fin 3) (js_floor (js_mul (num rawData_length) (Fin 0.3)))))
           themes)"

text \<open>Inputs used as examples.\<close>

definition empty_codebook :: Codebook where
  "empty_codebook = \<lparr> version = ''1.0'', projectName = ''p'', methodology = None, codes = [],
     codeHierarchy = \<lparr> rootCodes = [], relationships = Map.empty \<rparr>, refinementNotes = [],
     qualityMetrics = \<lparr> totalCodes = 0, hierarchyDepth = 0, averageCodeFrequency = NaN,
       redundancyScore = NaN \<rparr> \<rparr>"

definition bare_theory :: GroundedTheoryT where
  "bare_theory = \<lparr> gt_title = ''t'', gt_coreCategory = ''c'', gt_paradigm = ConstructivistT,
     gt_paradigmModel = \<lparr> phenomenon = ''c'', causalConditions = [], context = [''x''],
       strategies = [], consequences = [], interveningConditions = [] \<rparr>,
     gt_storyline = ''s'', gt_theoreticalPropositions = [],
     gt_categoryRelationships = [\<lparr> rel_from = ''a'', rel_to = ''b'', rel_type = Influences,
       explanation = ''e'', strength = Weak, evidence = [] \<rparr>],
     theoreticalIntegration = \<lparr> linkedTheories = [], contribution = [], novelty = [],
       practicalImplications = [], futureResearch = [] \<rparr>,
     saturationEvidence = \<lparr> categoriesSaturated = False, negativeCasesExamined = 0,
       dataSupport = [], saturatedCategories = [], unsaturatedCategories = [] \<rparr> \<rparr>"

definition quote_n :: "nat \<Rightarrow> Quote" where
  "quote_n k = \<lparr> quote_id = nat_to_string k, quote_text = ''q'', quote_source = ''unknown'',
     participant = None, quote_context = [], codeLabels = [] \<rparr>"

definition theme_with :: "nat \<Rightarrow> nat \<Rightarrow> nat \<Rightarrow> ThemeT" where
  "theme_with quotes part whole = \<lparr> theme_id = ''theme-001'', theme_name = ''n'',
     centralConcept = ''c'', theme_definition = ''d'', relatedCodes = [],
     supportingQuotes = map quote_n [0 ..< quotes],
     theme_prevalence = \<lparr> participants = part, totalParticipants = whole, dataPoints = quotes \<rparr>,
     significance = [] \<rparr>"

lemma array_map_Inr_iff:
  "array_map f xs = Some (Inr ys) \<longleftrightarrow> list_all2 (\<lambda>x y. f x = Some (Inr y)) xs ys"
proof (induction xs arbitrary: ys)
  case Nil
  then show ?case by auto
next
  case (Cons x xs)
  show ?case
  proof (cases ys)
    case Nil
    then show ?thesis by (auto split: option.splits sum.splits)
  next
    case (Cons z zs)
    then show ?thesis
      using Cons.IH [of zs] by (auto split: option.splits sum.splits)
  qed
qed

lemma array_map_transfer:
  assumes "array_map f xs = Some r"
    and "\<And>x y. x \<in> set xs \<Longrightarrow> f x = Some y \<Longrightarrow> g x = Some y"
  shows "array_map g xs = Some r"
  using assms
proof (induction xs arbitrary: r)
  case Nil
  then show ?case by simp
next
  case (Cons x xs)
  from Cons.prems(1) obtain y where y: "f x = Some y"
    by (cases "f x") auto
  then have gy: "g x = Some y" using Cons.prems(2) by simp
  show ?case
  proof (cases y)
    case (Inl e)
    with y gy Cons.prems(1) show ?thesis by simp
  next
    case (Inr d)
    with y Cons.prems(1) obtain r' where r': "array_map f xs = Some r'"
      by (cases "array_map f xs") auto
    then have "array_map g xs = Some r'"
      using Cons.prems(2) by (intro Cons.IH) auto
    with r' Inr y gy Cons.prems(1) show ?thesis by simp
  qed
qed

lemma array_map_returns:
  "(\<And>x. x \<in> set xs \<Longrightarrow> f x \<noteq> None) \<Longrightarrow> array_map f xs \<noteq> None"
  by (induction xs) (auto split: option.splits sum.splits)

lemma array_map_no_error:
  "(\<And>x. x \<in> set xs \<Longrightarrow> f x \<noteq> Some (Inl e)) \<Longrightarrow> array_map f xs \<noteq> Some (Inl e)"
  by (induction xs) (auto split: option.splits sum.splits)

lemma array_map_None:
  assumes "x \<in> set xs" and "f x = None"
    and "\<And>x e. x \<in> set xs \<Longrightarrow> f x \<noteq> Some (Inl e)"
  shows "array_map f xs = None"
  using assms
proof (induction xs)
  case Nil
  then show ?case by simp
next
  case (Cons z zs)
  show ?case
  proof (cases "f z")
    case None
    then show ?thesis by simp
  next
    case (Some y)
    with Cons.prems(3) [of z] obtain d where d: "f z = Some (Inr d)"
      by (cases y) auto
    with Cons.prems(1,2) have "x \<in> set zs" by auto
    then have "array_map f zs = None"
      using Cons.prems(2,3) by (intro Cons.IH) auto
    with d show ?thesis by simp
  qed
qed

lemma Math_max_eq_Max: "xs \<noteq> [] \<Longrightarrow> Math_max xs = Max (set xs)"
proof (cases xs)
  case Nil
  moreover assume "xs \<noteq> []"
  ultimately show ?thesis by simp
next
  case (Cons a list)
  have "Math_max xs = fold max list a"
    by (simp add: Math_max_def Cons)
  also have "\<dots> = Max (set (a # list))"
    by (rule Max.set_eq_fold [symmetric])
  finally show ?thesis by (simp only: Cons)
qed

lemma children_of_plain:
  assumes "rel c = None \<longrightarrow> Object_prototype c = None"
  shows "children_of rel c = Array (map_children rel c)"
  using assms by (cases "rel c") (simp_all add: children_of_def map_children_def)

lemma getDepth_fuel_mono:
  "getDepth n rel c d = Some r \<Longrightarrow> n \<le> m \<Longrightarrow> getDepth m rel c d = Some r"
proof (induction n arbitrary: m c d r)
  case 0
  then show ?case by simp
next
  case (Suc n)
  then obtain m' where m: "m = Suc m'" and le: "n \<le> m'"
    by (cases m) auto
  show ?case
  proof (cases "children_of rel c")
    case (Inherited i)
    with Suc.prems m show ?thesis by (cases i) auto
  next
    case (Array cs)
    show ?thesis
    proof (cases "cs = []")
      case True
      with Array Suc.prems m show ?thesis by simp
    next
      case False
      with Array Suc.prems obtain q where
        q: "array_map (\<lambda>ch. getDepth n rel ch (d + 1)) cs = Some q"
        by (cases "array_map (\<lambda>ch. getDepth n rel ch (d + 1)) cs") auto
      then have "array_map (\<lambda>ch. getDepth m' rel ch (d + 1)) cs = Some q"
        by (rule array_map_transfer) (use Suc.IH le in blast)
      with q False Array Suc.prems m show ?thesis by simp
    qed
  qed
qed

lemma getDepth_sound:
  "getDepth n rel c d = Some (Inr r) \<Longrightarrow> getDepth_reference rel c d r"
proof (induction n arbitrary: c d r)
  case 0
  then show ?case by simp
next
  case (Suc n)
  show ?case
  proof (cases "children_of rel c")
    case (Inherited i)
    then have "map_children rel c = []"
      by (auto simp: children_of_def map_children_def split: option.splits)
    moreover from Inherited Suc.prems have "r = d"
      by (cases i) (auto split: if_splits)
    ultimately show ?thesis by (auto intro: getDepth_reference.childless)
  next
    case (Array cs)
    then have mc: "map_children rel c = cs"
      by (auto simp: children_of_def map_children_def split: option.splits)
    show ?thesis
    proof (cases "cs = []")
      case True
      with Array Suc.prems mc show ?thesis by (auto intro: getDepth_reference.childless)
    next
      case False
      with Array Suc.prems obtain rs where
        rs: "array_map (\<lambda>ch. getDepth n rel ch (d + 1)) cs = Some (Inr rs)"
        and r: "r = Math_max rs"
        by (auto split: option.splits sum.splits)
      from rs have l: "list_all2 (\<lambda>ch y. getDepth n rel ch (d + 1) = Some (Inr y)) cs rs"
        by (simp add: array_map_Inr_iff)
      then have "list_all2 (\<lambda>ch y. getDepth_reference rel ch (d + 1) y) (map_children rel c) rs"
        unfolding mc by (rule list_all2_mono) (use Suc.IH in blast)
      moreover from l False have "rs \<noteq> []" by auto
      ultimately show ?thesis
        using False r mc by (auto simp: Math_max_eq_Max intro: getDepth_reference.with_children)
    qed
  qed
qed

lemma list_all2_ex_fuel:
  assumes "list_all2 (\<lambda>ch y. \<exists>n. getDepth n rel ch d = Some (Inr y)) cs rs"
  shows "\<exists>n. list_all2 (\<lambda>ch y. getDepth n rel ch d = Some (Inr y)) cs rs"
  using assms
proof (induction rule: list_all2_induct)
  case Nil
  then show ?case by simp
next
  case (Cons x xs y ys)
  then obtain n1 n2 where n1: "getDepth n1 rel x d = Some (Inr y)"
    and n2: "list_all2 (\<lambda>ch y. getDepth n2 rel ch d = Some (Inr y)) xs ys"
    by blast
  have "getDepth (max n1 n2) rel x d = Some (Inr y)"
    using n1 by (rule getDepth_fuel_mono) simp
  moreover have "list_all2 (\<lambda>ch y. getDepth (max n1 n2) rel ch d = Some (Inr y)) xs ys"
    using n2 by (rule list_all2_mono) (auto intro: getDepth_fuel_mono)
  ultimately show ?case by auto
qed

lemma getDepth_complete:
  assumes closed: "\<forall>c\<in>U. set (map_children rel c) \<subseteq> U"
    and plain: "\<forall>c\<in>U. rel c = None \<longrightarrow> Object_prototype c = None"
  shows "getDepth_reference rel c d r \<Longrightarrow> c \<in> U \<Longrightarrow> \<exists>n. getDepth n rel c d = Some (Inr r)"
proof (induction rule: getDepth_reference.induct)
  case (childless codeId depth)
  then have "children_of rel codeId = Array []"
    using plain children_of_plain [of rel codeId] by auto
  then have "getDepth (Suc 0) rel codeId depth = Some (Inr depth)" by simp
  then show ?case by blast
next
  case (with_children codeId depth rs)
  have arr: "children_of rel codeId = Array (map_children rel codeId)"
    using with_children.prems plain children_of_plain [of rel codeId] by blast
  have sub: "set (map_children rel codeId) \<subseteq> U"
    using with_children.prems closed by blast
  from with_children(2) sub
  have "list_all2 (\<lambda>ch y. \<exists>n. getDepth n rel ch (depth + 1) = Some (Inr y)) (map_children rel codeId) rs"
    by (induction rule: list_all2_induct) auto
  then obtain n where n: "list_all2 (\<lambda>ch y. getDepth n rel ch (depth + 1) = Some (Inr y)) (map_children rel codeId) rs"
    using list_all2_ex_fuel by blast
  then have "array_map (\<lambda>ch. getDepth n rel ch (depth + 1)) (map_children rel codeId) = Some (Inr rs)"
    by (simp add: array_map_Inr_iff)
  moreover from n with_children(1) have "rs \<noteq> []" by auto
  ultimately have "getDepth (Suc n) rel codeId depth = Some (Inr (Max (set rs)))"
    using with_children(1) arr by (simp add: Math_max_eq_Max)
  then show ?case by blast
qed

lemma roots_loop_array_map:
  "roots_loop n rel roots acc =
     (case array_map (\<lambda>rt. getDepth n rel rt 1) roots of
        None \<Rightarrow> None
      | Some (Inl e) \<Rightarrow> Some (Inl e)
      | Some (Inr ds) \<Rightarrow> Some (Inr (fold max ds acc)))"
  by (induction roots arbitrary: acc) (auto simp: max.commute split: option.splits sum.splits)

lemma calculateHierarchyDepth_fuel_mono:
  assumes "calculateHierarchyDepth n h = Some r" and "n \<le> m"
  shows "calculateHierarchyDepth m h = Some r"
proof -
  from assms(1) obtain q where
    q: "array_map (\<lambda>rt. getDepth n (relationships h) rt 1) (rootCodes h) = Some q"
    by (auto simp: calculateHierarchyDepth_def roots_loop_array_map split: option.splits)
  then have "array_map (\<lambda>rt. getDepth m (relationships h) rt 1) (rootCodes h) = Some q"
    by (rule array_map_transfer) (use assms(2) in \<open>auto intro: getDepth_fuel_mono\<close>)
  with q assms(1) show ?thesis
    by (simp add: calculateHierarchyDepth_def roots_loop_array_map)
qed

lemma fold_max_eq_Max: "rs \<noteq> [] \<Longrightarrow> fold max rs (0::nat) = Max (set rs)"
  using Math_max_eq_Max by (simp add: Math_max_def)

lemma calculateHierarchyDepth_sound:
  assumes "calculateHierarchyDepth n h = Some (Inr r)"
  shows "hierarchyDepth_reference h r"
proof -
  from assms obtain rs where
    rs: "list_all2 (\<lambda>rt y. getDepth n (relationships h) rt 1 = Some (Inr y)) (rootCodes h) rs"
    and r: "r = fold max rs 0"
    by (auto simp: calculateHierarchyDepth_def roots_loop_array_map array_map_Inr_iff
        split: option.splits sum.splits)
  show ?thesis
  proof (cases "rootCodes h = []")
    case True
    with rs r show ?thesis by (auto intro: hierarchyDepth_reference.no_roots)
  next
    case False
    with rs have ne: "rs \<noteq> []" by auto
    from rs have "list_all2 (\<lambda>rt y. getDepth_reference (relationships h) rt 1 y) (rootCodes h) rs"
      by (rule list_all2_mono) (auto intro: getDepth_sound)
    with False have "hierarchyDepth_reference h (Max (set rs))"
      by (rule hierarchyDepth_reference.some_roots)
    with r ne show ?thesis by (simp add: fold_max_eq_Max)
  qed
qed

lemma calculateHierarchyDepth_complete:
  assumes "hierarchyDepth_reference h r"
    and roots: "set (rootCodes h) \<subseteq> U"
    and closed: "\<forall>c\<in>U. set (map_children (relationships h) c) \<subseteq> U"
    and plain: "\<forall>c\<in>U. relationships h c = None \<longrightarrow> Object_prototype c = None"
  shows "\<exists>n. calculateHierarchyDepth n h = Some (Inr r)"
  using assms(1)
proof (cases rule: hierarchyDepth_reference.cases)
  case no_roots
  then show ?thesis by (simp add: calculateHierarchyDepth_def)
next
  case (some_roots rs)
  from some_roots(3) roots
  have "list_all2 (\<lambda>rt y. \<exists>n. getDepth n (relationships h) rt 1 = Some (Inr y)) (rootCodes h) rs"
    by (induction rule: list_all2_induct) (auto intro: getDepth_complete [OF closed plain])
  then obtain n where n: "list_all2 (\<lambda>rt y. getDepth n (relationships h) rt 1 = Some (Inr y)) (rootCodes h) rs"
    using list_all2_ex_fuel by blast
  with some_roots(2) have ne: "rs \<noteq> []" by auto
  from n have "calculateHierarchyDepth n h = Some (Inr (fold max rs 0))"
    by (simp add: calculateHierarchyDepth_def roots_loop_array_map array_map_Inr_iff [symmetric])
  with ne some_roots(1) show ?thesis by (auto simp: fold_max_eq_Max)
qed

lemma calculateHierarchyDepth_example:
  "calculateHierarchyDepth 3 example_hierarchy = Some (Inr 3)"
  by (simp add: calculateHierarchyDepth_def example_hierarchy_def children_of_def
      Object_prototype_def Math_max_def numeral_3_eq_3)

lemma calculateHierarchyDepth_example_returns_3:
  "3 \<le> fuel \<Longrightarrow> calculateHierarchyDepth fuel example_hierarchy = Some (Inr 3)"
  using calculateHierarchyDepth_fuel_mono [OF calculateHierarchyDepth_example] by blast

lemma calculateHierarchyDepth_no_roots:
  "rootCodes h = [] \<Longrightarrow> calculateHierarchyDepth fuel h = Some (Inr 0)"
  by (simp add: calculateHierarchyDepth_def)

lemma calculateHierarchyDepth_refines_reference_plain:
  assumes "set (rootCodes h) \<subseteq> U"
    and "\<forall>c\<in>U. set (map_children (relationships h) c) \<subseteq> U"
    and "\<forall>c\<in>U. relationships h c = None \<longrightarrow> Object_prototype c = None"
  shows "hierarchyDepth_reference h r \<longleftrightarrow>
           (\<exists>fuel. \<forall>m \<ge> fuel. calculateHierarchyDepth m h = Some (Inr r))"
proof
  assume "hierarchyDepth_reference h r"
  then obtain n where "calculateHierarchyDepth n h = Some (Inr r)"
    using calculateHierarchyDepth_complete [OF _ assms] by blast
  then have "\<forall>m \<ge> n. calculateHierarchyDepth m h = Some (Inr r)"
    using calculateHierarchyDepth_fuel_mono by blast
  then show "\<exists>fuel. \<forall>m \<ge> fuel. calculateHierarchyDepth m h = Some (Inr r)" ..
next
  assume "\<exists>fuel. \<forall>m \<ge> fuel. calculateHierarchyDepth m h = Some (Inr r)"
  then obtain n where "calculateHierarchyDepth n h = Some (Inr r)" by blast
  then show "hierarchyDepth_reference h r"
    by (rule calculateHierarchyDepth_sound)
qed

text \<open>
  Claim C8 asks for the calculator to equal the reference definition on every hierarchy.
  It does wherever no identifier met without an entry of its own is the name of a member
  of \<^verbatim>\<open>Object.prototype\<close> (\<open>calculateHierarchyDepth_refines_reference_plain\<close>), it
  returns 3 on the example (\<open>calculateHierarchyDepth_example_returns_3\<close>) and 0 without
  roots (\<open>calculateHierarchyDepth_no_roots\<close>). On the root \<^verbatim>\<open>constructor\<close> with an empty
  map the reference depth is 1, but the lookup finds the inherited constructor, whose
  \<^verbatim>\<open>length\<close> is 1 and which has no \<^verbatim>\<open>map\<close>: the calculation throws a \<^verbatim>\<open>TypeError\<close>.
\<close>

theorem calculateHierarchyDepth_inherited_member_throws:
  "calculateHierarchyDepth (Suc fuel) constructor_hierarchy = Some (Inl TypeError)
   \<and> hierarchyDepth_reference constructor_hierarchy 1"
proof
  show "calculateHierarchyDepth (Suc fuel) constructor_hierarchy = Some (Inl TypeError)"
    by (simp add: calculateHierarchyDepth_def constructor_hierarchy_def children_of_def
        Object_prototype_def)
  have "getDepth_reference Map.empty ''constructor'' 1 1"
    by (rule getDepth_reference.childless) (simp add: map_children_def)
  then have "list_all2 (\<lambda>rootCode r. getDepth_reference (relationships constructor_hierarchy) rootCode 1 r)
      (rootCodes constructor_hierarchy) [1]"
    by (simp add: constructor_hierarchy_def)
  moreover have "rootCodes constructor_hierarchy \<noteq> []"
    by (simp add: constructor_hierarchy_def)
  ultimately have "hierarchyDepth_reference constructor_hierarchy (Max (set [1]))"
    by (rule hierarchyDepth_reference.some_roots [rotated])
  then show "hierarchyDepth_reference constructor_hierarchy 1" by simp
qed

lemma getDepth_terminates_ranked:
  assumes closed: "\<forall>c\<in>S. \<forall>c'\<in>set (map_children rel c). c' \<in> S \<and> rank c' < (rank c :: nat)"
  shows "c \<in> S \<Longrightarrow> \<exists>r. getDepth (Suc (rank c)) rel c d = Some r"
proof (induction "rank c" arbitrary: c d rule: less_induct)
  case less
  show ?case
  proof (cases "children_of rel c")
    case (Inherited i)
    then show ?thesis by (cases i) auto
  next
    case (Array cs)
    then have mc: "cs = map_children rel c"
      by (auto simp: children_of_def map_children_def split: option.splits)
    have "getDepth (rank c) rel c' (d + 1) \<noteq> None" if c': "c' \<in> set cs" for c'
    proof -
      from c' mc closed less.prems have "c' \<in> S" and lt: "rank c' < rank c" by auto
      then obtain r' where "getDepth (Suc (rank c')) rel c' (d + 1) = Some r'"
        using less.hyps by blast
      then have "getDepth (rank c) rel c' (d + 1) = Some r'"
        by (rule getDepth_fuel_mono) (use lt in simp)
      then show ?thesis by simp
    qed
    then have "array_map (\<lambda>ch. getDepth (rank c) rel ch (d + 1)) cs \<noteq> None"
      by (rule array_map_returns)
    with Array show ?thesis by (auto split: option.splits sum.splits)
  qed
qed

lemma getDepth_no_error_plain:
  assumes closed: "\<forall>c\<in>U. set (map_children rel c) \<subseteq> U"
    and plain: "\<forall>c\<in>U. rel c = None \<longrightarrow> Object_prototype c = None"
  shows "c \<in> U \<Longrightarrow> getDepth n rel c d \<noteq> Some (Inl e)"
proof (induction n arbitrary: c d e)
  case 0
  then show ?case by simp
next
  case (Suc n)
  have arr: "children_of rel c = Array (map_children rel c)"
    using Suc.prems plain children_of_plain [of rel c] by blast
  have "array_map (\<lambda>ch. getDepth n rel ch (d + 1)) (map_children rel c) \<noteq> Some (Inl e)"
    by (rule array_map_no_error) (use Suc.IH Suc.prems closed in blast)
  with arr show ?case by (auto split: option.splits sum.splits)
qed

lemma getDepth_never_returns_on_cycle:
  assumes closed: "\<forall>c\<in>U. set (map_children rel c) \<subseteq> U"
    and plain: "\<forall>c\<in>U. rel c = None \<longrightarrow> Object_prototype c = None"
    and sub: "C \<subseteq> U"
    and cyc: "\<forall>c\<in>C. \<exists>c'\<in>set (map_children rel c). c' \<in> C"
  shows "c \<in> C \<Longrightarrow> getDepth n rel c d = None"
proof (induction n arbitrary: c d)
  case 0
  then show ?case by simp
next
  case (Suc n)
  with cyc obtain c' where c': "c' \<in> set (map_children rel c)" "c' \<in> C" by blast
  from Suc.prems sub have cU: "c \<in> U" by auto
  have arr: "children_of rel c = Array (map_children rel c)"
    using cU plain children_of_plain [of rel c] by blast
  have "getDepth n rel c' (d + 1) = None" using Suc.IH c'(2) by blast
  with c'(1) have "array_map (\<lambda>ch. getDepth n rel ch (d + 1)) (map_children rel c) = None"
    by (rule array_map_None)
      (use cU closed getDepth_no_error_plain [OF closed plain] in blast)
  moreover from c' have "map_children rel c \<noteq> []" by auto
  ultimately show ?case using arr by simp
qed

text \<open>
  Claim C3, as amended. The calculator keeps no set of visited nodes and raises no error
  for a malformed hierarchy. Where the map is acyclic below the roots (some rank decreases
  from every node reachable from a root to each of its children) the calculation ends,
  and it ends with a depth when no identifier met without an entry of its own is the name
  of a member of \<^verbatim>\<open>Object.prototype\<close>. Where a root lies on or leads into a cycle of such
  a hierarchy, the recursion nests beyond every bound and nothing is returned; only the
  exhaustion of the engine's call stack, a \<^verbatim>\<open>RangeError\<close>, ends it.
\<close>

theorem calculateHierarchyDepth_terminates_acyclic:
  "(set (rootCodes h) \<subseteq> S
      \<and> (\<forall>c\<in>S. \<forall>c'\<in>set (map_children (relationships h) c). c' \<in> S \<and> rank c' < (rank c :: nat))
     \<longrightarrow> (\<exists>fuel r. \<forall>m \<ge> fuel. calculateHierarchyDepth m h = Some r)
         \<and> ((\<forall>c\<in>S. relationships h c = None \<longrightarrow> Object_prototype c = None)
              \<longrightarrow> (\<exists>fuel d. \<forall>m \<ge> fuel. calculateHierarchyDepth m h = Some (Inr d))))
   \<and> (set (rootCodes g) \<subseteq> U
      \<and> (\<forall>c\<in>U. set (map_children (relationships g) c) \<subseteq> U)
      \<and> (\<forall>c\<in>U. relationships g c = None \<longrightarrow> Object_prototype c = None)
      \<and> rt \<in> set (rootCodes g) \<and> rt \<in> C \<and> C \<subseteq> U
      \<and> (\<forall>c\<in>C. \<exists>c'\<in>set (map_children (relationships g) c). c' \<in> C)
     \<longrightarrow> (\<forall>fuel. calculateHierarchyDepth fuel g = None))"
proof (intro conjI impI)
  assume a: "set (rootCodes h) \<subseteq> S
      \<and> (\<forall>c\<in>S. \<forall>c'\<in>set (map_children (relationships h) c). c' \<in> S \<and> rank c' < rank c)"
  define N where "N = Suc (fold max (map rank (rootCodes h)) 0)"
  have fold_ge: "a \<le> fold max xs a" for xs and a :: nat
    by (induction xs arbitrary: a) (auto intro: order_trans [OF max.cobounded2])
  have fold_mem: "x \<in> set xs \<Longrightarrow> x \<le> fold max xs a" for x xs and a :: nat
  proof (induction xs arbitrary: a)
    case Nil
    then show ?case by simp
  next
    case (Cons y ys)
    then show ?case
      using fold_ge [of "max y a" ys] by auto
  qed
  have "getDepth N (relationships h) rt 1 \<noteq> None" if "rt \<in> set (rootCodes h)" for rt
  proof -
    from that a have "rt \<in> S" by auto
    then obtain r where "getDepth (Suc (rank rt)) (relationships h) rt 1 = Some r"
      using getDepth_terminates_ranked [of S "relationships h" rank] a by blast
    moreover have "rank rt \<le> fold max (map rank (rootCodes h)) 0"
      using that by (simp add: fold_mem)
    ultimately have "getDepth N (relationships h) rt 1 = Some r"
      unfolding N_def by (elim getDepth_fuel_mono) simp
    then show ?thesis by simp
  qed
  then have "array_map (\<lambda>rt. getDepth N (relationships h) rt 1) (rootCodes h) \<noteq> None"
    by (rule array_map_returns)
  then have "calculateHierarchyDepth N h \<noteq> None"
    by (auto simp: calculateHierarchyDepth_def roots_loop_array_map split: option.splits sum.splits)
  then obtain r where r: "calculateHierarchyDepth N h = Some r" by auto
  then have all: "\<forall>m \<ge> N. calculateHierarchyDepth m h = Some r"
    using calculateHierarchyDepth_fuel_mono by blast
  then show "\<exists>fuel r. \<forall>m \<ge> fuel. calculateHierarchyDepth m h = Some r" by blast
  assume p: "\<forall>c\<in>S. relationships h c = None \<longrightarrow> Object_prototype c = None"
  from a have closed: "\<forall>c\<in>S. set (map_children (relationships h) c) \<subseteq> S" by blast
  have "array_map (\<lambda>rt. getDepth N (relationships h) rt 1) (rootCodes h) \<noteq> Some (Inl e)" for e
    by (rule array_map_no_error) (use a getDepth_no_error_plain [OF closed p] in blast)
  then have "calculateHierarchyDepth N h \<noteq> Some (Inl e)" for e
    by (auto simp: calculateHierarchyDepth_def roots_loop_array_map split: option.splits sum.splits)
  with r obtain d where "r = Inr d" by (cases r) auto
  with all show "\<exists>fuel d. \<forall>m \<ge> fuel. calculateHierarchyDepth m h = Some (Inr d)" by blast
next
  assume b: "set (rootCodes g) \<subseteq> U
      \<and> (\<forall>c\<in>U. set (map_children (relationships g) c) \<subseteq> U)
      \<and> (\<forall>c\<in>U. relationships g c = None \<longrightarrow> Object_prototype c = None)
      \<and> rt \<in> set (rootCodes g) \<and> rt \<in> C \<and> C \<subseteq> U
      \<and> (\<forall>c\<in>C. \<exists>c'\<in>set (map_children (relationships g) c). c' \<in> C)"
  then have closed: "\<forall>c\<in>U. set (map_children (relationships g) c) \<subseteq> U"
    and plain: "\<forall>c\<in>U. relationships g c = None \<longrightarrow> Object_prototype c = None"
    and sub: "C \<subseteq> U"
    and cyc: "\<forall>c\<in>C. \<exists>c'\<in>set (map_children (relationships g) c). c' \<in> C"
    by blast+
  show "\<forall>fuel. calculateHierarchyDepth fuel g = None"
  proof
    fix fuel
    have none: "getDepth fuel (relationships g) rt 1 = None"
      using getDepth_never_returns_on_cycle [OF closed plain sub cyc] b by blast
    have mem: "rt \<in> set (rootCodes g)" using b by blast
    have ok: "getDepth fuel (relationships g) x 1 \<noteq> Some (Inl e)" if "x \<in> set (rootCodes g)" for x e
      using that b getDepth_no_error_plain [OF closed plain] by blast
    from mem none ok
    have "array_map (\<lambda>rt. getDepth fuel (relationships g) rt 1) (rootCodes g) = None"
      by (rule array_map_None)
    then show "calculateHierarchyDepth fuel g = None"
      by (simp add: calculateHierarchyDepth_def roots_loop_array_map)
  qed
qed

theorem calculateHierarchyDepth_terminates_acyclic_witness:
  "(\<exists>fuel d. \<forall>m \<ge> fuel. calculateHierarchyDepth m example_hierarchy = Some (Inr d))
   \<and> ''A'' \<in> set (rootCodes self_referential_hierarchy)
   \<and> ''A'' \<in> set (map_children (relationships self_referential_hierarchy) ''A'')
   \<and> calculateHierarchyDepth 1000 self_referential_hierarchy = None"
proof -
  note inst = calculateHierarchyDepth_terminates_acyclic
    [of example_hierarchy "{''A'', ''B'', ''C'', ''D''}" example_rank
        self_referential_hierarchy "{''A''}" "''A''" "{''A''}"]
  have h1: "set (rootCodes example_hierarchy) \<subseteq> {''A'', ''B'', ''C'', ''D''}
      \<and> (\<forall>c\<in>{''A'', ''B'', ''C'', ''D''}. \<forall>c'\<in>set (map_children (relationships example_hierarchy) c).
            c' \<in> {''A'', ''B'', ''C'', ''D''} \<and> example_rank c' < example_rank c)"
    by (simp add: example_hierarchy_def map_children_def example_rank_def)
  have h2: "\<forall>c\<in>{''A'', ''B'', ''C'', ''D''}. relationships example_hierarchy c = None \<longrightarrow> Object_prototype c = None"
    by (simp add: example_hierarchy_def Object_prototype_def)
  have h3: "set (rootCodes self_referential_hierarchy) \<subseteq> {''A''}
      \<and> (\<forall>c\<in>{''A''}. set (map_children (relationships self_referential_hierarchy) c) \<subseteq> {''A''})
      \<and> (\<forall>c\<in>{''A''}. relationships self_referential_hierarchy c = None \<longrightarrow> Object_prototype c = None)
      \<and> ''A'' \<in> set (rootCodes self_referential_hierarchy) \<and> ''A'' \<in> {''A''} \<and> {''A''} \<subseteq> {''A''}
      \<and> (\<forall>c\<in>{''A''}. \<exists>c'\<in>set (map_children (relationships self_referential_hierarchy) c). c' \<in> {''A''})"
    by (simp add: self_referential_hierarchy_def map_children_def)
  have a: "\<exists>fuel d. \<forall>m \<ge> fuel. calculateHierarchyDepth m example_hierarchy = Some (Inr d)"
    by (rule inst [THEN conjunct1, THEN mp, OF h1, THEN conjunct2, THEN mp, OF h2])
  have "\<forall>fuel. calculateHierarchyDepth fuel self_referential_hierarchy = None"
    by (rule inst [THEN conjunct2, THEN mp, OF h3])
  then have b: "calculateHierarchyDepth 1000 self_referential_hierarchy = None" ..
  from h3 have c: "''A'' \<in> set (rootCodes self_referential_hierarchy)
      \<and> ''A'' \<in> set (map_children (relationships self_referential_hierarchy) ''A'')"
    by (simp add: self_referential_hierarchy_def map_children_def)
  from a b c show ?thesis by (intro conjI) (elim conjE; assumption)+
qed

text \<open>
  Claim C3 as stated fails: on a hierarchy whose root lists itself as its child the
  calculation neither returns nor throws an error of its own, however deep the calls may
  nest.
\<close>

theorem calculateHierarchyDepth_self_reference_counterexample:
  "\<not> (\<exists>fuel r. calculateHierarchyDepth fuel self_referential_hierarchy = Some r)"
proof -
  have closed: "\<forall>c\<in>{''A''}. set (map_children (relationships self_referential_hierarchy) c) \<subseteq> {''A''}"
    and plain: "\<forall>c\<in>{''A''}. relationships self_referential_hierarchy c = None \<longrightarrow> Object_prototype c = None"
    and cyc: "\<forall>c\<in>{''A''}. \<exists>c'\<in>set (map_children (relationships self_referential_hierarchy) c). c' \<in> {''A''}"
    by (simp_all add: self_referential_hierarchy_def map_children_def)
  have "getDepth n (relationships self_referential_hierarchy) ''A'' 1 = None" for n
    by (rule getDepth_never_returns_on_cycle [OF closed plain _ cyc]) simp_all
  then have "calculateHierarchyDepth n self_referential_hierarchy = None" for n
    by (simp add: calculateHierarchyDepth_def self_referential_hierarchy_def)
  then show ?thesis by simp
qed

lemma toLowerCase_char_eq:
  "toLowerCase_char c =
     (case map_of (zip ''ABCDEFGHIJKLMNOPQRSTUVWXYZ'' ''abcdefghijklmnopqrstuvwxyz'') c of
                Some l \<Rightarrow> l | None \<Rightarrow> c)"
proof (cases c)
  case (Char b0 b1 b2 b3 b4 b5 b6 b7)
  show ?thesis
    unfolding Char toLowerCase_char_def
    by (cases b0; cases b1; cases b2; cases b3; cases b4; cases b5; cases b6; cases b7) simp_all
qed

lemma toLowerCase_lower_cased: "toLowerCase s = lower_cased s"
  by (simp add: toLowerCase_def lower_cased_def toLowerCase_char_eq)

lemma startsWith_prefix: "startsWith s p \<longleftrightarrow> prefix p s"
  by (induction s p rule: startsWith.induct) auto

lemma str_includes_sublist: "str_includes s p \<longleftrightarrow> sublist p s"
proof (induction s)
  case Nil
  then show ?case by auto
next
  case (Cons c cs)
  then show ?case
    by (simp add: startsWith_prefix sublist_Cons_right)
qed

lemma assign_if:
  "(\<exists>b. x = assign b n m) \<Longrightarrow> (\<exists>b. y = assign b n m) \<Longrightarrow> \<exists>b. (if c then x else y) = assign b n m"
  by simp

lemma classify_theme_assigns:
  "\<exists>b. classify_theme model theme = assign b (name theme) model"
proof -
  have 1: "\<exists>b. model\<lparr>causalConditions := causalConditions model @ [name theme]\<rparr> = assign b (name theme) model"
    by (rule exI [of _ CausalConditions]) simp
  have 2: "\<exists>b. model\<lparr>context := context model @ [name theme]\<rparr> = assign b (name theme) model"
    by (rule exI [of _ Context]) simp
  have 3: "\<exists>b. model\<lparr>strategies := strategies model @ [name theme]\<rparr> = assign b (name theme) model"
    by (rule exI [of _ Strategies]) simp
  have 4: "\<exists>b. model\<lparr>consequences := consequences model @ [name theme]\<rparr> = assign b (name theme) model"
    by (rule exI [of _ Consequences]) simp
  have 5: "\<exists>b. model\<lparr>interveningConditions := interveningConditions model @ [name theme]\<rparr>
      = assign b (name theme) model"
    by (rule exI [of _ InterveningConditions]) simp
  show ?thesis
    unfolding classify_theme_def Let_def
    by (intro assign_if 1 2 3 4 5)
qed

lemma assign_phenomenon: "phenomenon (assign b n model) = phenomenon model"
  by (cases b) simp_all

lemma assign_listed_names: "listed_names (assign b n model) = listed_names model + {#n#}"
  by (cases b) (simp_all add: listed_names_def)

lemma fold_classify_theme_phenomenon:
  "phenomenon (fold (\<lambda>theme model. classify_theme model theme) themes model) = phenomenon model"
proof (induction themes arbitrary: model)
  case Nil
  then show ?case by simp
next
  case (Cons t ts)
  obtain b where "classify_theme model t = assign b (name t) model"
    using classify_theme_assigns by blast
  then show ?case by (simp add: Cons.IH assign_phenomenon)
qed

lemma fold_classify_theme_listed_names:
  "listed_names (fold (\<lambda>theme model. classify_theme model theme) themes model)
     = listed_names model + mset (map name themes)"
proof (induction themes arbitrary: model)
  case Nil
  then show ?case by simp
next
  case (Cons t ts)
  obtain b where "classify_theme model t = assign b (name t) model"
    using classify_theme_assigns by blast
  then show ?case by (simp add: Cons.IH assign_listed_names)
qed

lemma buildParadigmModel_phenomenon:
  "phenomenon (buildParadigmModel themes cs) = (if themes = [] then [] else name (hd themes))"
  by (cases themes)
    (simp_all add: buildParadigmModel_def Let_def fold_classify_theme_phenomenon empty_model_def)

lemma buildParadigmModel_listed_names:
  "listed_names (buildParadigmModel themes cs) = mset (map name themes)"
proof -
  have "listed_names (m\<lparr>phenomenon := p\<rparr>) = listed_names m" for m p
    by (simp add: listed_names_def)
  moreover have "listed_names empty_model = {#}"
    by (simp add: listed_names_def empty_model_def)
  ultimately show ?thesis
    by (simp add: buildParadigmModel_def Let_def fold_classify_theme_listed_names)
qed

lemma hd_sort_key_first_minimal:
  fixes f :: "'a \<Rightarrow> 'k::linorder"
  assumes "xs \<noteq> []"
  shows "hd (sort_key f xs) = hd (filter (\<lambda>y. f y = Min (f ` set xs)) xs)"
proof -
  let ?s = "sort_key f xs"
  from assms have ne: "?s \<noteq> []" by (metis length_0_conv length_sort)
  then obtain z zs where s: "?s = z # zs" by (cases ?s) auto
  have srt: "sorted (map f ?s)" by (rule sorted_sort_key)
  have "z \<in> set xs" using s by (metis list.set_intros(1) set_sort)
  have "f z \<le> f y" if "y \<in> set xs" for y
  proof -
    from that have "y \<in> set ?s" by simp
    with s srt show ?thesis by auto
  qed
  then have "Min (f ` set xs) = f z"
    using \<open>z \<in> set xs\<close> by (intro Min_eqI) auto
  then have "hd (filter (\<lambda>y. f y = Min (f ` set xs)) xs) = hd (filter (\<lambda>y. f y = f z) ?s)"
    by (simp add: sort_key_stable)
  also have "\<dots> = z" by (simp add: s)
  finally show ?thesis by (simp add: s)
qed

lemma identifyCoreCategory_first_most_prevalent:
  assumes "themes \<noteq> []"
  shows "identifyCoreCategory themes =
           hd (filter (\<lambda>t. prevalence t = Max (prevalence ` set themes)) themes)"
proof -
  have "Min ((\<lambda>t. - prevalence t) ` set themes) = - Max (prevalence ` set themes)"
  proof (rule Min_eqI)
    show "finite ((\<lambda>t. - prevalence t) ` set themes)" by simp
    show "- Max (prevalence ` set themes) \<le> y" if "y \<in> (\<lambda>t. - prevalence t) ` set themes" for y
      using that by auto
    have "Max (prevalence ` set themes) \<in> prevalence ` set themes"
      using assms by (intro Max_in) auto
    then show "- Max (prevalence ` set themes) \<in> (\<lambda>t. - prevalence t) ` set themes"
      by auto
  qed
  then have eq: "(\<lambda>y. - prevalence y = Min ((\<lambda>t. - prevalence t) ` set themes))
           = (\<lambda>t. prevalence t = Max (prevalence ` set themes))"
    by (simp only: neg_equal_iff_equal)
  have "hd (sort_key (\<lambda>t. - prevalence t) themes)
          = hd (filter (\<lambda>y. - prevalence y = Min ((\<lambda>t. - prevalence t) ` set themes)) themes)"
    by (rule hd_sort_key_first_minimal [OF assms])
  also have "\<dots> = hd (filter (\<lambda>t. prevalence t = Max (prevalence ` set themes)) themes)"
    by (simp only: eq)
  finally have "hd (sort_key (\<lambda>t. - prevalence t) themes)
          = hd (filter (\<lambda>t. prevalence t = Max (prevalence ` set themes)) themes)" .
  with assms show ?thesis
    by (simp add: identifyCoreCategory_def sort_by_prevalence_def)
qed

text \<open>
  Claim C1 asks for the phenomenon to be the name of the most prevalent theme, the first
  one on ties. \<open>identifyCoreCategory\<close> finds that theme
  (\<open>identifyCoreCategory_first_most_prevalent\<close>), but \<open>buildParadigmModel\<close> takes the
  first theme of its unsorted argument (\<open>buildParadigmModel_phenomenon\<close>). With a theme of
  prevalence 0.1 before one of prevalence 0.9 the phenomenon is the former.
\<close>

theorem buildParadigmModel_phenomenon_not_most_prevalent:
  "phenomenon (buildParadigmModel [minor_theme, major_theme] ([] :: unit list)) = ''Minor theme''
   \<and> name (identifyCoreCategory [minor_theme, major_theme]) = ''Major theme''
   \<and> prevalence minor_theme < prevalence major_theme"
  by (simp add: buildParadigmModel_phenomenon identifyCoreCategory_def sort_by_prevalence_def
      minor_theme_def major_theme_def)

text \<open>
  Claim C2, as amended. Every theme is pushed onto exactly one of the five lists: taken
  together, the lists hold the theme names, each as often as it is the name of a theme.
  The theme named as phenomenon stays on its list, so whenever there is a theme the
  phenomenon is also a member of one of the five lists.
\<close>

theorem buildParadigmModel_each_theme_in_one_list:
  "mset (causalConditions (buildParadigmModel themes cs))
     + mset (context (buildParadigmModel themes cs))
     + mset (strategies (buildParadigmModel themes cs))
     + mset (consequences (buildParadigmModel themes cs))
     + mset (interveningConditions (buildParadigmModel themes cs)) = mset (map name themes)
   \<and> (themes \<noteq> [] \<longrightarrow>
        phenomenon (buildParadigmModel themes cs)
          \<in> set (causalConditions (buildParadigmModel themes cs))
            \<union> set (context (buildParadigmModel themes cs))
            \<union> set (strategies (buildParadigmModel themes cs))
            \<union> set (consequences (buildParadigmModel themes cs))
            \<union> set (interveningConditions (buildParadigmModel themes cs)))"
proof (intro conjI impI)
  show all: "mset (causalConditions (buildParadigmModel themes cs))
     + mset (context (buildParadigmModel themes cs))
     + mset (strategies (buildParadigmModel themes cs))
     + mset (consequences (buildParadigmModel themes cs))
     + mset (interveningConditions (buildParadigmModel themes cs)) = mset (map name themes)"
    using buildParadigmModel_listed_names [of themes cs] by (simp only: listed_names_def)
  assume ne: "themes \<noteq> []"
  then have "name (hd themes) \<in># mset (map name themes)" by simp
  then have "name (hd themes) \<in># mset (causalConditions (buildParadigmModel themes cs))
     + mset (context (buildParadigmModel themes cs))
     + mset (strategies (buildParadigmModel themes cs))
     + mset (consequences (buildParadigmModel themes cs))
     + mset (interveningConditions (buildParadigmModel themes cs))"
    by (simp only: all)
  with ne show "phenomenon (buildParadigmModel themes cs)
          \<in> set (causalConditions (buildParadigmModel themes cs))
            \<union> set (context (buildParadigmModel themes cs))
            \<union> set (strategies (buildParadigmModel themes cs))
            \<union> set (consequences (buildParadigmModel themes cs))
            \<union> set (interveningConditions (buildParadigmModel themes cs))"
    by (auto simp: buildParadigmModel_phenomenon)
qed

theorem buildParadigmModel_each_theme_in_one_list_witness:
  "[major_theme, minor_theme] \<noteq> []
   \<and> phenomenon (buildParadigmModel [major_theme, minor_theme] ([] :: unit list))
       \<in> set (causalConditions (buildParadigmModel [major_theme, minor_theme] ([] :: unit list)))
            \<union> set (context (buildParadigmModel [major_theme, minor_theme] ([] :: unit list)))
            \<union> set (strategies (buildParadigmModel [major_theme, minor_theme] ([] :: unit list)))
            \<union> set (consequences (buildParadigmModel [major_theme, minor_theme] ([] :: unit list)))
            \<union> set (interveningConditions (buildParadigmModel [major_theme, minor_theme] ([] :: unit list)))"
proof -
  note inst = buildParadigmModel_each_theme_in_one_list [of "[major_theme, minor_theme]" "[] :: unit list"]
  have ne: "[major_theme, minor_theme] \<noteq> []" by simp
  from inst [THEN conjunct2, THEN mp, OF ne] ne show ?thesis by (intro conjI)
qed

lemma classify_theme_coping:
  "classify_theme model (t\<lparr>name := ''Coping with uncertainty''\<rparr>)
     = assign Strategies ''Coping with uncertainty'' model"
  by (simp add: classify_theme_def toLowerCase_def toLowerCase_char_def Let_def)

text \<open>
  Claim C2 as stated fails: for the single theme ``Coping with uncertainty'' the name is
  the phenomenon and is listed among the strategies as well.
\<close>

theorem buildParadigmModel_phenomenon_also_listed_counterexample:
  "phenomenon (buildParadigmModel [coping_theme] ([] :: unit list)) = ''Coping with uncertainty''
   \<and> strategies (buildParadigmModel [coping_theme] ([] :: unit list)) = [''Coping with uncertainty'']"
  using classify_theme_coping [of empty_model coping_theme]
  by (simp add: buildParadigmModel_def Let_def coping_theme_def empty_model_def)

text \<open>
  Claim C10. On an empty theme list the core category is the placeholder named
  ``Unknown Process'' with prevalence 0 and no supporting codes, and a complete theory
  titled ``Theory of Unknown Process'' is produced.
\<close>

theorem buildGroundedTheory_empty_themes:
  "identifyCoreCategory [] =
     \<lparr> name = ''Unknown Process'', description = ''No themes identified'',
       supportingCodes = [], prevalence = 0, examples = [] \<rparr>
   \<and> buildGroundedTheory cs [] rq p now =
     \<lparr> title = ''Theory of Unknown Process'',
       coreCategory = ''Unknown Process'',
       paradigm = (case p of None \<Rightarrow> Constructivist | Some q \<Rightarrow> q),
       paradigmModel = \<lparr> phenomenon = [], causalConditions = [], context = [], strategies = [],
         consequences = [], interveningConditions = [] \<rparr>,
       storyline = ''This grounded theory explains the process of unknown process. ''
         @ [CHR 0x0A, CHR 0x0A]
         @ ''The data reveals 0 interconnected themes that together explain how participants navigate unknown process. ''
         @ ''This theory demonstrates that the process is not linear but involves continuous interaction between individual actions, contextual factors, and evolving outcomes.'',
       theoreticalPropositions =
         [''The identified themes represent interconnected processes in participants' experiences'',
          ''Context and individual factors mediate how these processes manifest'',
          ''The overall process is dynamic and evolves over time''],
       categoryRelationships = [],
       metadata = \<lparr> researchQuestion = rq, createdAt = now \<rparr> \<rparr>"
proof
  show "identifyCoreCategory [] =
     \<lparr> name = ''Unknown Process'', description = ''No themes identified'',
       supportingCodes = [], prevalence = 0, examples = [] \<rparr>"
    by (simp add: identifyCoreCategory_def)
  have low: "toLowerCase ''Unknown Process'' = ''unknown process''"
    by (simp add: toLowerCase_def toLowerCase_char_def)
  have model: "buildParadigmModel [] cs = empty_model"
    by (simp add: buildParadigmModel_def)
  have rels: "mapCategoryRelationships [] = []"
    by (simp add: mapCategoryRelationships_def)
  have props: "generatePropositions [] [] =
         [''The identified themes represent interconnected processes in participants' experiences'',
          ''Context and individual factors mediate how these processes manifest'',
          ''The overall process is dynamic and evolves over time'']"
    by (simp add: generatePropositions_def)
  have story: "generateStoryline (identifyCoreCategory []) empty_model [] =
       ''This grounded theory explains the process of unknown process. ''
         @ [CHR 0x0A, CHR 0x0A]
         @ ''The data reveals 0 interconnected themes that together explain how participants navigate unknown process. ''
         @ ''This theory demonstrates that the process is not linear but involves continuous interaction between individual actions, contextual factors, and evolving outcomes.''"
    by (simp add: generateStoryline_def identifyCoreCategory_def low empty_model_def digit_char_def)
  show "buildGroundedTheory cs [] rq p now = \<lparr> title = ''Theory of Unknown Process'',
       coreCategory = ''Unknown Process'',
       paradigm = (case p of None \<Rightarrow> Constructivist | Some q \<Rightarrow> q),
       paradigmModel = \<lparr> phenomenon = [], causalConditions = [], context = [], strategies = [],
         consequences = [], interveningConditions = [] \<rparr>,
       storyline = ''This grounded theory explains the process of unknown process. ''
         @ [CHR 0x0A, CHR 0x0A]
         @ ''The data reveals 0 interconnected themes that together explain how participants navigate unknown process. ''
         @ ''This theory demonstrates that the process is not linear but involves continuous interaction between individual actions, contextual factors, and evolving outcomes.'',
       theoreticalPropositions =
         [''The identified themes represent interconnected processes in participants' experiences'',
          ''Context and individual factors mediate how these processes manifest'',
          ''The overall process is dynamic and evolves over time''],
       categoryRelationships = [],
       metadata = \<lparr> researchQuestion = rq, createdAt = now \<rparr> \<rparr>"
    unfolding buildGroundedTheory_def Let_def model rels props story
    by (simp add: identifyCoreCategory_def empty_model_def)
qed

lemma classify_theme_follows_rules:
  assumes "containsGerunds (supportingCodes theme)
             \<longleftrightarrow> (\<exists>lbl \<in> set (supportingCodes theme). matches_gerund_pattern lbl)"
  shows "classify_theme model theme = assign (rule_bucket theme) (name theme) model"
  using assms
  by (simp add: classify_theme_def rule_bucket_def contains_any_def Let_def
      str_includes_sublist toLowerCase_lower_cased)

lemma fold_classify_theme_follows_rules:
  assumes "\<forall>t \<in> set themes. containsGerunds (supportingCodes t)
             \<longleftrightarrow> (\<exists>lbl \<in> set (supportingCodes t). matches_gerund_pattern lbl)"
  shows "fold (\<lambda>theme model. classify_theme model theme) themes model =
     \<lparr> phenomenon = phenomenon model,
       causalConditions = causalConditions model @ names_in CausalConditions themes,
       context = context model @ names_in Context themes,
       strategies = strategies model @ names_in Strategies themes,
       consequences = consequences model @ names_in Consequences themes,
       interveningConditions = interveningConditions model @ names_in InterveningConditions themes \<rparr>"
  using assms
proof (induction themes arbitrary: model)
  case Nil
  then show ?case by (simp add: names_in_def)
next
  case (Cons t ts)
  have step: "classify_theme model t = assign (rule_bucket t) (name t) model"
    using Cons.prems by (intro classify_theme_follows_rules) simp
  have "fold (\<lambda>theme model. classify_theme model theme) (t # ts) model =
        fold (\<lambda>theme model. classify_theme model theme) ts (assign (rule_bucket t) (name t) model)"
    by (simp add: step)
  also have "\<dots> = \<lparr> phenomenon = phenomenon (assign (rule_bucket t) (name t) model),
       causalConditions = causalConditions (assign (rule_bucket t) (name t) model) @ names_in CausalConditions ts,
       context = context (assign (rule_bucket t) (name t) model) @ names_in Context ts,
       strategies = strategies (assign (rule_bucket t) (name t) model) @ names_in Strategies ts,
       consequences = consequences (assign (rule_bucket t) (name t) model) @ names_in Consequences ts,
       interveningConditions = interveningConditions (assign (rule_bucket t) (name t) model)
         @ names_in InterveningConditions ts \<rparr>"
    using Cons.prems by (intro Cons.IH) simp
  finally show ?case
    by (cases "rule_bucket t") (simp_all add: names_in_def)
qed

lemma buildParadigmModel_follows_rules:
  assumes "\<forall>t \<in> set themes. containsGerunds (supportingCodes t)
             \<longleftrightarrow> (\<exists>lbl \<in> set (supportingCodes t). matches_gerund_pattern lbl)"
  shows "causalConditions (buildParadigmModel themes cs) = names_in CausalConditions themes
   \<and> context (buildParadigmModel themes cs) = names_in Context themes
   \<and> strategies (buildParadigmModel themes cs) = names_in Strategies themes
   \<and> consequences (buildParadigmModel themes cs) = names_in Consequences themes
   \<and> interveningConditions (buildParadigmModel themes cs) = names_in InterveningConditions themes"
  unfolding buildParadigmModel_def Let_def fold_classify_theme_follows_rules [OF assms]
  by (simp add: empty_model_def)

lemma rule_bucket_coping: "rule_bucket (t\<lparr>name := ''Coping with uncertainty''\<rparr>) = Strategies"
  by (simp add: rule_bucket_def contains_any_def Let_def
      str_includes_sublist [symmetric] toLowerCase_lower_cased [symmetric]
      toLowerCase_def toLowerCase_char_def)

lemma is_letter_word_char: "is_letter c \<Longrightarrow> is_word_char c"
  by (auto simp: is_letter_def is_word_char_def)

lemma split_words_sublist:
  assumes "w \<in> set (split_words acc s)" and "\<forall>c \<in> set acc. is_letter c"
  shows "(\<exists>u v. acc @ s = u @ w @ v) \<and> (\<forall>c \<in> set w. is_letter c)"
  using assms
proof (induction acc s rule: split_words.induct)
  case (1 w')
  then have eq: "w = w'" by (auto split: if_splits)
  have "w' @ [] = [] @ w' @ []" by simp
  with eq 1(2) show ?case by blast
next
  case (2 w' c cs)
  show ?case
  proof (cases "is_letter c")
    case True
    with 2 have "(\<exists>u v. (w' @ [c]) @ cs = u @ w @ v) \<and> (\<forall>c \<in> set w. is_letter c)"
      by auto
    then show ?thesis by simp
  next
    case False
    with 2(3) consider "w = w'" | "w \<in> set (split_words [] cs)"
      by (auto split: if_splits)
    then show ?thesis
    proof cases
      case 1
      then have "w' @ c # cs = [] @ w @ (c # cs)" by simp
      with 1 2(4) show ?thesis by blast
    next
      case 2
      with "2.IH"(2) [OF False] obtain u v where "[] @ cs = u @ w @ v" and l: "\<forall>c \<in> set w. is_letter c"
        by auto
      then have "w' @ c # cs = (w' @ c # u) @ w @ v" by simp
      with l show ?thesis by blast
    qed
  qed
qed

lemma gerund_regex_test_append:
  "is_word_char c \<Longrightarrow> gerund_regex_test (u @ c # ''ing'' @ v)"
  by (induction u) simp_all

lemma matches_gerund_pattern_regex:
  assumes "matches_gerund_pattern lbl"
  shows "gerund_regex_test lbl"
proof -
  from assms obtain w where w: "w \<in> set (words_of lbl)" and e: "ends_in_ing w"
    by (auto simp: matches_gerund_pattern_def)
  from w obtain u v where uv: "lbl = u @ w @ v" and l: "\<forall>c \<in> set w. is_letter c"
    using split_words_sublist [of w "[]" lbl] by (auto simp: words_of_def)
  define stem where "stem = take (length w - 3) w"
  from e have ws: "w = stem @ ''ing''" and ne: "stem \<noteq> []"
    unfolding stem_def ends_in_ing_def
    by (metis append_take_drop_id, auto)
  from ne obtain st c where st: "stem = st @ [c]"
    by (metis rev_exhaust)
  with ws l have "is_letter c" by auto
  then have "is_word_char c" by (rule is_letter_word_char)
  then have "gerund_regex_test ((u @ st) @ c # ''ing'' @ v)"
    by (rule gerund_regex_test_append)
  with uv ws st show ?thesis by simp
qed

text \<open>
  Claim C5 asks for the first matching rule in the stated order, the third rule taking a
  related-code label that matches the gerund pattern, a word ending in \<^verbatim>\<open>ing\<close>. The
  order is that of the source, and a theme named ``Coping with uncertainty'' goes to the
  strategies (\<open>classify_theme_coping\<close>); the source agrees with the rules on every theme
  list on which its test of the labels agrees with the gerund pattern
  (\<open>buildParadigmModel_follows_rules\<close>). But the test, \<^verbatim>\<open>/\w+ing/\<close>, also accepts
  \<^verbatim>\<open>ing\<close> inside a word: the theme ``Results'' with the code ``findings'' is put among
  the strategies, where the rules give the consequences.
\<close>

theorem containsGerunds_accepts_non_gerund:
  "strategies (buildParadigmModel [results_theme] ([] :: unit list)) = [''Results'']
   \<and> consequences (buildParadigmModel [results_theme] ([] :: unit list)) = []
   \<and> rule_bucket results_theme = Consequences
   \<and> containsGerunds (supportingCodes results_theme)
   \<and> \<not> matches_gerund_pattern ''findings''"
proof (intro conjI)
  have g: "containsGerunds (supportingCodes results_theme)"
    by (simp add: containsGerunds_def results_theme_def is_word_char_def)
  then show "containsGerunds (supportingCodes results_theme)" .
  have c: "classify_theme empty_model results_theme = assign Strategies ''Results'' empty_model"
    using g
    by (simp add: classify_theme_def results_theme_def toLowerCase_def toLowerCase_char_def Let_def)
  then show "strategies (buildParadigmModel [results_theme] ([] :: unit list)) = [''Results'']"
    by (simp add: buildParadigmModel_def Let_def empty_model_def)
  from c show "consequences (buildParadigmModel [results_theme] ([] :: unit list)) = []"
    by (simp add: buildParadigmModel_def Let_def empty_model_def)
  show n: "\<not> matches_gerund_pattern ''findings''"
    by (simp add: matches_gerund_pattern_def words_of_def is_letter_def ends_in_ing_def)
  have "\<not> (\<exists>lbl \<in> set (supportingCodes results_theme). matches_gerund_pattern lbl)"
    using n by (simp add: results_theme_def)
  moreover have "lower_cased (name results_theme) = ''results''"
    by (simp add: toLowerCase_lower_cased [symmetric] results_theme_def toLowerCase_def
        toLowerCase_char_def)
  ultimately show "rule_bucket results_theme = Consequences"
    by (simp add: rule_bucket_def contains_any_def Let_def str_includes_sublist [symmetric]
        results_theme_def)
qed

lemma sharedCodes_empty_iff:
  "sharedCodes a b = [] \<longleftrightarrow> set (supportingCodes a) \<inter> set (supportingCodes b) = {}"
  by (auto simp: sharedCodes_def filter_empty_conv)

lemma inferRelationship_None_iff:
  "inferRelationship a b = None \<longleftrightarrow> set (supportingCodes a) \<inter> set (supportingCodes b) = {}"
  by (simp add: inferRelationship_def Let_def sharedCodes_empty_iff)

lemma inferRelationship_strength:
  assumes "inferRelationship a b = Some (ty, expl, s)"
  shows "s = (if length (sharedCodes a b) > 2 then Strong
              else if length (sharedCodes a b) = 2 then Moderate else Weak)
         \<and> length (sharedCodes a b) \<ge> 1"
proof -
  define n where "n = length (sharedCodes a b)"
  from assms have ne: "n \<noteq> 0"
    unfolding n_def by (auto simp: inferRelationship_def Let_def split: if_splits)
  from assms ne have s: "s = (if n > 2 then Strong else if n > 1 then Moderate else Weak)"
    unfolding n_def by (auto simp: inferRelationship_def Let_def split: if_splits)
  from ne consider "n > 2" | "n = 2" | "n = 1" by arith
  then have "s = (if n > 2 then Strong else if n = 2 then Moderate else Weak) \<and> n \<ge> 1"
    using s by cases simp_all
  then show ?thesis by (simp only: n_def)
qed

lemma length_filter_member_count:
  "length (filter (\<lambda>c. c \<in> S) xs) = (\<Sum>c \<in> set xs \<inter> S. count_list xs c)"
proof -
  have "length (filter (\<lambda>c. c \<in> S) xs) = sum_list (map (\<lambda>c. if c \<in> S then 1 else 0) xs)"
    by (induction xs) auto
  also have "\<dots> = (\<Sum>c \<in> set xs. count_list xs c * (if c \<in> S then 1 else 0))"
    by (rule sum_list_map_eq_sum_count)
  also have "\<dots> = (\<Sum>c \<in> set xs. if c \<in> S then count_list xs c else 0)"
    by (rule sum.cong) auto
  also have "\<dots> = (\<Sum>c \<in> set xs \<inter> S. count_list xs c)"
    by (simp add: sum.inter_restrict)
  finally show ?thesis .
qed

lemma sharedCodes_length:
  "length (sharedCodes a b) =
     (\<Sum>c \<in> set (supportingCodes a) \<inter> set (supportingCodes b). count_list (supportingCodes a) c)"
  by (simp add: sharedCodes_def length_filter_member_count)

lemma shared_count_distinct:
  assumes "distinct xs"
  shows "(\<Sum>c \<in> set xs \<inter> S. count_list xs c) = card (set xs \<inter> S)"
proof -
  have one: "count_list ys c = 1" if "distinct ys" "c \<in> set ys" for ys and c :: 'a
    using that by (induction ys) (auto simp: count_list_0_iff)
  have "(\<Sum>c \<in> set xs \<inter> S. count_list xs c) = (\<Sum>c \<in> set xs \<inter> S. 1)"
    by (rule sum.cong) (use assms one in auto)
  then show ?thesis by simp
qed

lemma relationships_inner_append:
  "relationships_inner themes i j rels = rels @ relationships_inner themes i j []"
  by (simp add: relationships_inner_def Let_def split: option.splits prod.splits)

lemma fold_append_concat:
  "fold (\<lambda>x acc. acc @ g x) xs acc = acc @ concat (map g xs)"
  by (induction xs arbitrary: acc) simp_all

lemma mapCategoryRelationships_concat:
  "mapCategoryRelationships themes =
     concat (map (\<lambda>i. concat (map (\<lambda>j. relationships_inner themes i j []) [0..<length themes]))
       [0..<length themes])"
proof -
  have inner: "fold (\<lambda>j rels. relationships_inner themes i j rels) js rels =
      rels @ concat (map (\<lambda>j. relationships_inner themes i j []) js)" for i js rels
  proof (induction js arbitrary: rels)
    case Nil
    then show ?case by simp
  next
    case (Cons j js)
    have "fold (\<lambda>j rels. relationships_inner themes i j rels) (j # js) rels =
          fold (\<lambda>j rels. relationships_inner themes i j rels) js (relationships_inner themes i j rels)"
      by simp
    also have "\<dots> = relationships_inner themes i j rels
                 @ concat (map (\<lambda>j. relationships_inner themes i j []) js)"
      by (rule Cons.IH)
    also have "relationships_inner themes i j rels = rels @ relationships_inner themes i j []"
      by (rule relationships_inner_append)
    finally show ?case by simp
  qed
  show ?thesis
    unfolding mapCategoryRelationships_def inner
    by (simp only: fold_append_concat append_Nil)
qed

lemma relationships_inner_emits_iff:
  assumes "i \<noteq> j"
  shows "relationships_inner themes i j [] \<noteq> [] \<longleftrightarrow>
     set (supportingCodes (themes ! i)) \<inter> set (supportingCodes (themes ! j)) \<noteq> {}"
proof (cases "inferRelationship (themes ! i) (themes ! j)")
  case None
  with assms show ?thesis
    using inferRelationship_None_iff [of "themes ! i" "themes ! j"]
    by (simp add: relationships_inner_def Let_def)
next
  case (Some r)
  with assms show ?thesis
    using inferRelationship_None_iff [of "themes ! i" "themes ! j"]
    by (simp add: relationships_inner_def Let_def split: prod.splits)
qed

lemma relationships_inner_strength:
  assumes "i \<noteq> j"
    and "set (supportingCodes (themes ! i)) \<inter> set (supportingCodes (themes ! j)) \<noteq> {}"
  shows "(\<exists>ty expl. relationships_inner themes i j [] =
           [\<lparr> rel_from = name (themes ! i), rel_to = name (themes ! j), rel_type = ty,
               explanation = expl,
               strength = (if length (sharedCodes (themes ! i) (themes ! j)) > 2 then Strong
                           else if length (sharedCodes (themes ! i) (themes ! j)) = 2 then Moderate
                           else Weak) \<rparr>])
         \<and> length (sharedCodes (themes ! i) (themes ! j)) \<ge> 1"
proof -
  from assms(2) obtain ty expl s where
    r: "inferRelationship (themes ! i) (themes ! j) = Some (ty, expl, s)"
    using inferRelationship_None_iff [of "themes ! i" "themes ! j"] by (cases "inferRelationship (themes ! i) (themes ! j)") auto
  from inferRelationship_strength [OF r]
  have s: "s = (if length (sharedCodes (themes ! i) (themes ! j)) > 2 then Strong
                           else if length (sharedCodes (themes ! i) (themes ! j)) = 2 then Moderate
                           else Weak)"
    and ge: "length (sharedCodes (themes ! i) (themes ! j)) \<ge> 1"
    by blast+
  from r assms(1) have "relationships_inner themes i j [] =
     [\<lparr> rel_from = name (themes ! i), rel_to = name (themes ! j), rel_type = ty,
               explanation = expl, strength = s \<rparr>]"
    by (simp add: relationships_inner_def Let_def)
  with s ge show ?thesis by blast
qed

text \<open>
  Claim C6, as amended. The engine's output is what the ordered pairs of distinct
  positions contribute, in order. A pair contributes a relationship exactly when the two
  themes share a related-code identifier, whatever their names. Its strength goes by the
  number of entries of the first theme's code list that occur in the second's, a shared
  identifier counting as often as the first list repeats it: strong above 2, moderate at
  2, weak at 1. Without repetitions in the first list this is the number of shared
  identifiers.
\<close>

theorem mapCategoryRelationships_shared_codes:
  "mapCategoryRelationships themes =
     concat (map (\<lambda>i. concat (map (\<lambda>j. relationships_inner themes i j []) [0..<length themes]))
       [0..<length themes])
   \<and> relationships_inner themes i i [] = []
   \<and> (i \<noteq> j \<longrightarrow>
        (relationships_inner themes i j [] \<noteq> [] \<longleftrightarrow>
           set (supportingCodes (themes ! i)) \<inter> set (supportingCodes (themes ! j)) \<noteq> {}))
   \<and> (i \<noteq> j \<longrightarrow>
        set (supportingCodes (themes ! i)) \<inter> set (supportingCodes (themes ! j)) \<noteq> {} \<longrightarrow>
        (\<exists>ty expl. relationships_inner themes i j [] =
           [\<lparr> rel_from = name (themes ! i), rel_to = name (themes ! j), rel_type = ty,
               explanation = expl,
               strength = (if (\<Sum>c \<in> set (supportingCodes (themes ! i)) \<inter> set (supportingCodes (themes ! j)).
                   count_list (supportingCodes (themes ! i)) c) > 2 then Strong
                           else if (\<Sum>c \<in> set (supportingCodes (themes ! i)) \<inter> set (supportingCodes (themes ! j)).
                   count_list (supportingCodes (themes ! i)) c) = 2 then Moderate
                           else Weak) \<rparr>])
        \<and> (\<Sum>c \<in> set (supportingCodes (themes ! i)) \<inter> set (supportingCodes (themes ! j)).
                   count_list (supportingCodes (themes ! i)) c) \<ge> 1)
   \<and> (distinct (supportingCodes (themes ! i)) \<longrightarrow>
        (\<Sum>c \<in> set (supportingCodes (themes ! i)) \<inter> set (supportingCodes (themes ! j)).
                   count_list (supportingCodes (themes ! i)) c) = card (set (supportingCodes (themes ! i)) \<inter> set (supportingCodes (themes ! j))))"
proof (intro conjI impI)
  show "mapCategoryRelationships themes =
     concat (map (\<lambda>i. concat (map (\<lambda>j. relationships_inner themes i j []) [0..<length themes]))
       [0..<length themes])"
    by (rule mapCategoryRelationships_concat)
  show "relationships_inner themes i i [] = []"
    by (simp add: relationships_inner_def)
  show "relationships_inner themes i j [] \<noteq> [] \<longleftrightarrow>
           set (supportingCodes (themes ! i)) \<inter> set (supportingCodes (themes ! j)) \<noteq> {}"
    if "i \<noteq> j"
    using that by (rule relationships_inner_emits_iff)
  show "\<exists>ty expl. relationships_inner themes i j [] =
           [\<lparr> rel_from = name (themes ! i), rel_to = name (themes ! j), rel_type = ty,
               explanation = expl,
               strength = (if (\<Sum>c \<in> set (supportingCodes (themes ! i)) \<inter> set (supportingCodes (themes ! j)).
                   count_list (supportingCodes (themes ! i)) c) > 2 then Strong
                           else if (\<Sum>c \<in> set (supportingCodes (themes ! i)) \<inter> set (supportingCodes (themes ! j)).
                   count_list (supportingCodes (themes ! i)) c) = 2 then Moderate
                           else Weak) \<rparr>]"
    if "i \<noteq> j" "set (supportingCodes (themes ! i)) \<inter> set (supportingCodes (themes ! j)) \<noteq> {}"
    using relationships_inner_strength [OF that] unfolding sharedCodes_length by blast
  show "(\<Sum>c \<in> set (supportingCodes (themes ! i)) \<inter> set (supportingCodes (themes ! j)).
                   count_list (supportingCodes (themes ! i)) c) \<ge> 1"
    if "i \<noteq> j" "set (supportingCodes (themes ! i)) \<inter> set (supportingCodes (themes ! j)) \<noteq> {}"
    using relationships_inner_strength [OF that] unfolding sharedCodes_length by blast
  show "(\<Sum>c \<in> set (supportingCodes (themes ! i)) \<inter> set (supportingCodes (themes ! j)).
                   count_list (supportingCodes (themes ! i)) c) = card (set (supportingCodes (themes ! i)) \<inter> set (supportingCodes (themes ! j)))"
    if "distinct (supportingCodes (themes ! i))"
    using that by (rule shared_count_distinct)
qed

theorem mapCategoryRelationships_shared_codes_witness:
  "(0::nat) \<noteq> 1
   \<and> set (supportingCodes ([minor_theme, major_theme] ! 0))
        \<inter> set (supportingCodes ([minor_theme, major_theme] ! 1)) \<noteq> {}
   \<and> distinct (supportingCodes ([minor_theme, major_theme] ! 0))
   \<and> relationships_inner [minor_theme, major_theme] 0 1 [] \<noteq> []
   \<and> card (set (supportingCodes ([minor_theme, major_theme] ! 0))
        \<inter> set (supportingCodes ([minor_theme, major_theme] ! 1))) = 1
   \<and> map strength (relationships_inner [minor_theme, major_theme] 0 1 []) = [Weak]"
proof -
  note inst = mapCategoryRelationships_shared_codes [of "[minor_theme, major_theme]" 0 1]
  have ne: "(0::nat) \<noteq> 1" by simp
  have sh: "set (supportingCodes ([minor_theme, major_theme] ! 0))
        \<inter> set (supportingCodes ([minor_theme, major_theme] ! 1)) \<noteq> {}"
    by (simp add: minor_theme_def major_theme_def)
  have di: "distinct (supportingCodes ([minor_theme, major_theme] ! 0))"
    by (simp add: minor_theme_def)
  have cd: "card (set (supportingCodes ([minor_theme, major_theme] ! 0))
        \<inter> set (supportingCodes ([minor_theme, major_theme] ! 1))) = 1"
    by (simp add: minor_theme_def major_theme_def)
  from inst ne sh have em: "relationships_inner [minor_theme, major_theme] 0 1 [] \<noteq> []"
    by blast
  from inst di cd have n1: "(\<Sum>c \<in> set (supportingCodes ([minor_theme, major_theme] ! 0))
                     \<inter> set (supportingCodes ([minor_theme, major_theme] ! 1)).
                   count_list (supportingCodes ([minor_theme, major_theme] ! 0)) c) = 1"
    by simp
  from inst ne sh obtain ty expl where
    "relationships_inner [minor_theme, major_theme] 0 1 [] =
           [\<lparr> rel_from = name ([minor_theme, major_theme] ! 0),
               rel_to = name ([minor_theme, major_theme] ! 1), rel_type = ty,
               explanation = expl,
               strength = (if (\<Sum>c \<in> set (supportingCodes ([minor_theme, major_theme] ! 0))
                     \<inter> set (supportingCodes ([minor_theme, major_theme] ! 1)).
                   count_list (supportingCodes ([minor_theme, major_theme] ! 0)) c) > 2 then Strong
                           else if (\<Sum>c \<in> set (supportingCodes ([minor_theme, major_theme] ! 0))
                     \<inter> set (supportingCodes ([minor_theme, major_theme] ! 1)).
                   count_list (supportingCodes ([minor_theme, major_theme] ! 0)) c) = 2 then Moderate
                           else Weak) \<rparr>]"
    by blast
  then have st: "map strength (relationships_inner [minor_theme, major_theme] 0 1 []) = [Weak]"
    by (simp only: n1) simp
  from ne sh di em cd st show ?thesis by (intro conjI)
qed

text \<open>
  Claim C6 as stated fails: a theme that lists the code \<^verbatim>\<open>c1\<close> three times shares one
  identifier with a theme that lists \<^verbatim>\<open>c1\<close>, and the relationship between them is strong.
\<close>

theorem inferRelationship_repeated_code_counterexample:
  "map strength (relationships_inner [repeated_code_theme, minor_theme] 0 1 []) = [Strong]
   \<and> card (set (supportingCodes repeated_code_theme) \<inter> set (supportingCodes minor_theme)) = 1"
  by (simp add: relationships_inner_def inferRelationship_def sharedCodes_def Let_def
      repeated_code_theme_def minor_theme_def toLowerCase_def toLowerCase_char_def)

lemma credibility_score_sum:
  "credibility_score theory =
     Fin ((if causalConditions (gt_paradigmModel theory) \<noteq> [] then 0.2 else 0)
        + (if strategies (gt_paradigmModel theory) \<noteq> [] then 0.2 else 0)
        + (if length (gt_categoryRelationships theory) \<ge> 3 then 0.3 else 0)
        + (if categoriesSaturated (saturationEvidence theory) then 0.3 else 0))"
  by (simp add: credibility_score_def Let_def)

text \<open>
  Claim C9. The credibility score of the theory validator is the sum of 0.2 for non-empty
  causal conditions, 0.2 for non-empty strategies, 0.3 for at least three category
  relationships and 0.3 for the saturation flag; with none of the first two, one
  relationship and no saturation it is 0.
\<close>

theorem validateGroundedTheory_credibility:
  "map_of (criteriaScores (validateGroundedTheory theory)) ''credibility'' =
     Some (Fin ((if causalConditions (gt_paradigmModel theory) \<noteq> [] then 0.2 else 0)
        + (if strategies (gt_paradigmModel theory) \<noteq> [] then 0.2 else 0)
        + (if length (gt_categoryRelationships theory) \<ge> 3 then 0.3 else 0)
        + (if categoriesSaturated (saturationEvidence theory) then 0.3 else 0)))
   \<and> (causalConditions (gt_paradigmModel theory) = [] \<and> strategies (gt_paradigmModel theory) = []
        \<and> length (gt_categoryRelationships theory) = 1
        \<and> \<not> categoriesSaturated (saturationEvidence theory)
      \<longrightarrow> map_of (criteriaScores (validateGroundedTheory theory)) ''credibility'' = Some (Fin 0))"
proof -
  have "criteriaScores (validateGroundedTheory theory) = theory_scores theory"
    by (simp add: validateGroundedTheory_def Let_def split: prod.splits)
  then have "map_of (criteriaScores (validateGroundedTheory theory)) ''credibility''
      = Some (credibility_score theory)"
    by (simp add: theory_scores_def)
  then show ?thesis
    by (simp add: credibility_score_sum)
qed

theorem validateGroundedTheory_credibility_witness:
  "causalConditions (gt_paradigmModel bare_theory) = []
   \<and> strategies (gt_paradigmModel bare_theory) = []
   \<and> length (gt_categoryRelationships bare_theory) = 1
   \<and> \<not> categoriesSaturated (saturationEvidence bare_theory)
   \<and> map_of (criteriaScores (validateGroundedTheory bare_theory)) ''credibility'' = Some (Fin 0)"
proof -
  have h: "causalConditions (gt_paradigmModel bare_theory) = []
     \<and> strategies (gt_paradigmModel bare_theory) = []
     \<and> length (gt_categoryRelationships bare_theory) = 1
     \<and> \<not> categoriesSaturated (saturationEvidence bare_theory)"
    by (simp add: bare_theory_def)
  with validateGroundedTheory_credibility [of bare_theory]
  have "map_of (criteriaScores (validateGroundedTheory bare_theory)) ''credibility'' = Some (Fin 0)"
    by blast
  with h show ?thesis by blast
qed

lemma js_min_3_of_int: "js_min (Fin 3) (Fin (of_int k)) = Fin (of_int (min 3 k))"
proof (cases "k \<le> 3")
  case True
  then have "(of_int k :: real) \<le> 3" by simp
  with True show ?thesis by (simp add: js_min_def min_def)
next
  case False
  then have "\<not> (of_int k :: real) \<le> 3" by simp
  with False show ?thesis by (simp add: js_min_def min_def)
qed

lemma participants_threshold:
  "js_ge (num p) (js_min (Fin 3) (js_floor (js_mul (num n) (Fin 0.3))))
     \<longleftrightarrow> int p \<ge> min 3 \<lfloor>real n * 0.3\<rfloor>"
proof -
  define k where "k = \<lfloor>real n * 0.3\<rfloor>"
  have "js_floor (js_mul (num n) (Fin 0.3)) = Fin (of_int k)"
    by (simp add: num_def k_def)
  then have "js_min (Fin 3) (js_floor (js_mul (num n) (Fin 0.3))) = Fin (of_int (min 3 k))"
    by (simp only: js_min_3_of_int)
  moreover have "real p \<ge> of_int (min 3 k) \<longleftrightarrow> int p \<ge> min 3 k"
    by (metis of_int_le_iff of_int_of_nat_eq)
  ultimately show ?thesis by (simp add: num_def k_def)
qed

text \<open>
  Claim C7. The saturation flag is true exactly when there are at least 3 themes, every
  theme has at least 3 supporting quotes and every theme's participants count is at
  least \<open>min(3, floor(totalParticipants \<times> 0.3))\<close>, where the total is \<^verbatim>\<open>rawData.length\<close>,
  the value stored as \<^verbatim>\<open>totalParticipants\<close> in every theme; it is false for any list of
  two themes.
\<close>

theorem saturation_iff:
  "(saturation themes n \<longleftrightarrow>
      length themes \<ge> 3
      \<and> (\<forall>t\<in>set themes. length (supportingQuotes t) \<ge> 3)
      \<and> (\<forall>t\<in>set themes. int (participants (theme_prevalence t)) \<ge> min 3 \<lfloor>real n * 0.3\<rfloor>))
   \<and> (length themes = 2 \<longrightarrow> \<not> saturation themes n)
   \<and> ((\<forall>t\<in>set themes. totalParticipants (theme_prevalence t) = n) \<longrightarrow>
       (saturation themes n \<longleftrightarrow>
          length themes \<ge> 3
          \<and> (\<forall>t\<in>set themes. length (supportingQuotes t) \<ge> 3)
          \<and> (\<forall>t\<in>set themes. int (participants (theme_prevalence t))
                \<ge> min 3 \<lfloor>real (totalParticipants (theme_prevalence t)) * 0.3\<rfloor>)))"
proof -
  have main: "saturation themes n \<longleftrightarrow>
      length themes \<ge> 3
      \<and> (\<forall>t\<in>set themes. length (supportingQuotes t) \<ge> 3)
      \<and> (\<forall>t\<in>set themes. int (participants (theme_prevalence t)) \<ge> min 3 \<lfloor>real n * 0.3\<rfloor>)"
    unfolding saturation_def by (simp only: participants_threshold list_all_iff)
  moreover from main have "length themes = 2 \<longrightarrow> \<not> saturation themes n"
    by simp
  moreover from main have "(\<forall>t\<in>set themes. totalParticipants (theme_prevalence t) = n) \<longrightarrow>
       (saturation themes n \<longleftrightarrow>
          length themes \<ge> 3
          \<and> (\<forall>t\<in>set themes. length (supportingQuotes t) \<ge> 3)
          \<and> (\<forall>t\<in>set themes. int (participants (theme_prevalence t))
                \<ge> min 3 \<lfloor>real (totalParticipants (theme_prevalence t)) * 0.3\<rfloor>))"
    by auto
  ultimately show ?thesis by blast
qed

theorem saturation_iff_witness:
  "length [theme_with 5 5 20, theme_with 9 9 20] = 2
   \<and> \<not> saturation [theme_with 5 5 20, theme_with 9 9 20] 20
   \<and> saturation [theme_with 5 5 20, theme_with 9 9 20, theme_with 3 3 20] 20"
proof -
  have two: "length [theme_with 5 5 20, theme_with 9 9 20] = 2" by simp
  with saturation_iff [of "[theme_with 5 5 20, theme_with 9 9 20]" 20]
  have no: "\<not> saturation [theme_with 5 5 20, theme_with 9 9 20] 20" by blast
  have "length [theme_with 5 5 20, theme_with 9 9 20, theme_with 3 3 20] \<ge> 3
      \<and> (\<forall>t\<in>set [theme_with 5 5 20, theme_with 9 9 20, theme_with 3 3 20].
            length (supportingQuotes t) \<ge> 3)
      \<and> (\<forall>t\<in>set [theme_with 5 5 20, theme_with 9 9 20, theme_with 3 3 20].
            int (participants (theme_prevalence t)) \<ge> min 3 \<lfloor>real 20 * 0.3\<rfloor>)"
    by (simp add: theme_with_def)
  with saturation_iff [of "[theme_with 5 5 20, theme_with 9 9 20, theme_with 3 3 20]" 20]
  have "saturation [theme_with 5 5 20, theme_with 9 9 20, theme_with 3 3 20] 20" by blast
  with two no show ?thesis by blast
qed

lemma mean_score_NaN_first:
  "mean_score ((k, NaN) # rest) = NaN"
proof -
  have "fold (\<lambda>b a. js_add a b) xs NaN = NaN" for xs
    by (induction xs) simp_all
  then show ?thesis by (simp add: mean_score_def)
qed

lemma codebook_scores_empty:
  assumes "codes codebook = []"
  shows "codebook_scores codebook =
     [(''clarity'', NaN), (''distinctiveness'', NaN), (''completeness'', Fin 0.3),
      (''hierarchy'', (if hierarchyDepth (qualityMetrics codebook) = 0 then Fin 0.5
                       else if hierarchyDepth (qualityMetrics codebook) \<le> 3 then Fin 1.0
                       else Fin 0.6)),
      (''examples'', NaN)]"
  using assms by (simp add: codebook_scores_def Let_def num_def inf_of_sign_def)

lemma theme_scores_empty:
  "theme_scores [] totalDataPoints =
     [(''coherence'', NaN), (''distinctiveness'', Fin 1), (''dataSupport'', NaN),
      (''relevance'', NaN), (''prevalence'', NaN),
      (''coverage'', js_min (Fin 1) (js_divide (Fin 0) totalDataPoints))]"
  by (simp add: theme_scores_def Let_def num_def inf_of_sign_def calculateThemeOverlap_def
      js_sub_def js_max_def js_min_def)

text \<open>
  Claim C4, as amended. On an empty input the validators raise no error. The codebook
  validator returns NaN for clarity, distinctiveness and examples, the theme validator
  returns NaN for coherence, dataSupport, relevance and prevalence; in both the overall
  quality is NaN and the quality threshold is not passed.
\<close>

theorem validators_return_NaN_on_empty_input:
  "(codes codebook = [] \<longrightarrow>
      criteriaScores (validateCodebook codebook m) =
        [(''clarity'', NaN), (''distinctiveness'', NaN), (''completeness'', Fin 0.3),
         (''hierarchy'', (if hierarchyDepth (qualityMetrics codebook) = 0 then Fin 0.5
                          else if hierarchyDepth (qualityMetrics codebook) \<le> 3 then Fin 1.0
                          else Fin 0.6)),
         (''examples'', NaN)]
      \<and> overallQuality (validateCodebook codebook m) = NaN
      \<and> \<not> passesQualityThreshold (validateCodebook codebook m))
   \<and> criteriaScores (validateThemes [] totalDataPoints) =
        [(''coherence'', NaN), (''distinctiveness'', Fin 1), (''dataSupport'', NaN),
         (''relevance'', NaN), (''prevalence'', NaN),
         (''coverage'', js_min (Fin 1) (js_divide (Fin 0) totalDataPoints))]
   \<and> overallQuality (validateThemes [] totalDataPoints) = NaN
   \<and> \<not> passesQualityThreshold (validateThemes [] totalDataPoints)"
proof (intro conjI impI)
  assume e: "codes codebook = []"
  show "criteriaScores (validateCodebook codebook m) =
        [(''clarity'', NaN), (''distinctiveness'', NaN), (''completeness'', Fin 0.3),
         (''hierarchy'', (if hierarchyDepth (qualityMetrics codebook) = 0 then Fin 0.5
                          else if hierarchyDepth (qualityMetrics codebook) \<le> 3 then Fin 1.0
                          else Fin 0.6)),
         (''examples'', NaN)]"
    unfolding codebook_scores_empty [OF e, symmetric]
    by (simp add: validateCodebook_def Let_def split: prod.splits)
  have o: "overallQuality (validateCodebook codebook m) = mean_score (codebook_scores codebook)"
    by (simp add: validateCodebook_def Let_def split: prod.splits)
  then show c: "overallQuality (validateCodebook codebook m) = NaN"
    by (simp only: codebook_scores_empty [OF e] mean_score_NaN_first)
  have "passesQualityThreshold (validateCodebook codebook m)
      = js_ge (overallQuality (validateCodebook codebook m)) (Fin 0.7)"
    by (simp add: validateCodebook_def Let_def split: prod.splits)
  then show "\<not> passesQualityThreshold (validateCodebook codebook m)"
    by (simp add: c)
next
  show "criteriaScores (validateThemes [] totalDataPoints) =
        [(''coherence'', NaN), (''distinctiveness'', Fin 1), (''dataSupport'', NaN),
         (''relevance'', NaN), (''prevalence'', NaN),
         (''coverage'', js_min (Fin 1) (js_divide (Fin 0) totalDataPoints))]"
    unfolding theme_scores_empty [symmetric]
    by (simp add: validateThemes_def Let_def split: prod.splits)
  have "overallQuality (validateThemes [] totalDataPoints)
      = mean_score (theme_scores [] totalDataPoints)"
    by (simp add: validateThemes_def Let_def split: prod.splits)
  then show t: "overallQuality (validateThemes [] totalDataPoints) = NaN"
    by (simp only: theme_scores_empty mean_score_NaN_first)
  have "passesQualityThreshold (validateThemes [] totalDataPoints)
      = js_ge (overallQuality (validateThemes [] totalDataPoints)) (Fin 0.7)"
    by (simp add: validateThemes_def Let_def split: prod.splits)
  then show "\<not> passesQualityThreshold (validateThemes [] totalDataPoints)"
    by (simp add: t)
qed

theorem validators_return_NaN_on_empty_input_witness:
  "codes empty_codebook = []
   \<and> overallQuality (validateCodebook empty_codebook None) = NaN
   \<and> \<not> passesQualityThreshold (validateCodebook empty_codebook None)"
proof -
  have h: "codes empty_codebook = []" by (simp add: empty_codebook_def)
  with validators_return_NaN_on_empty_input [of empty_codebook None]
  show ?thesis by blast
qed

text \<open>
  Claim C4 as stated fails: on a codebook without codes, and on an empty theme list, the
  validators return an assessment with NaN scores.
\<close>

theorem validateCodebook_empty_no_error_counterexample:
  "map_of (criteriaScores (validateCodebook empty_codebook None)) ''clarity'' = Some NaN
   \<and> overallQuality (validateCodebook empty_codebook None) = NaN
   \<and> map_of (criteriaScores (validateThemes [] (Fin 0))) ''coherence'' = Some NaN
   \<and> overallQuality (validateThemes [] (Fin 0)) = NaN"
proof -
  have e: "codes empty_codebook = []" by (simp add: empty_codebook_def)
  have a: "criteriaScores (validateCodebook empty_codebook None) = codebook_scores empty_codebook"
    and b: "overallQuality (validateCodebook empty_codebook None) = mean_score (codebook_scores empty_codebook)"
    by (simp_all add: validateCodebook_def Let_def split: prod.splits)
  have c: "criteriaScores (validateThemes [] (Fin 0)) = theme_scores [] (Fin 0)"
    and d: "overallQuality (validateThemes [] (Fin 0)) = mean_score (theme_scores [] (Fin 0))"
    by (simp_all add: validateThemes_def Let_def split: prod.splits)
  show ?thesis
    unfolding a b c d codebook_scores_empty [OF e] theme_scores_empty mean_score_NaN_first
    by simp
qed

end
